theory Spec2Isabelle
  imports Main
begin

section \<open>Python strings\<close>

text \<open>
  A Python \<open>str\<close> is modelled as a \<open>string\<close>, one \<open>char\<close> per code point, so the
  model covers text whose code points lie below 256. The character classes below are
  the ones Python 3 uses for \<open>str\<close> patterns and \<open>str.strip\<close>, restricted to that range:
  \<open>\d\<close> is a decimal digit, \<open>\s\<close> and \<open>strip\<close> use the Unicode white-space test.
  The six pictographs of the message templates lie outside that range. Each is one
  code point for Python, and each is written here as one character of its own, the
  control characters U+0001 to U+0006 standing for them, so that \<open>len\<close>, the comparison
  with the maximum message length and the slice boundaries count as the program's do.
  Text that itself contains one of these six control characters is outside the model.
\<close>

definition is_digit :: "char \<Rightarrow> bool" where
  "is_digit c = (c \<in> set ''0123456789'')"

definition is_space :: "char \<Rightarrow> bool" where
  "is_space c = (c \<in> set [CHR 0x09, CHR 0x0A, CHR 0x0B, CHR 0x0C, CHR 0x0D,
                            CHR 0x1C, CHR 0x1D, CHR 0x1E, CHR 0x1F, CHR '' '',
                            CHR 0x85, CHR 0xA0])"

definition nl :: string where
  "nl = [CHR 0x0A]"

text \<open>\<open>s.startswith(p)\<close>.\<close>

definition startswith :: "string \<Rightarrow> string \<Rightarrow> bool" where
  "startswith s p = (take (length p) s = p)"

text \<open>
  \<open>s.replace(old, new)\<close>: every non-overlapping occurrence of \<open>old\<close>, found from the
  left, is replaced. For an empty \<open>old\<close> Python puts \<open>new\<close> before every character and
  at the end.
\<close>

function replace_at :: "string \<Rightarrow> string \<Rightarrow> string \<Rightarrow> string" where
  "replace_at old new [] = []"
| "replace_at old new (c # cs) =
     (if old \<noteq> [] \<and> startswith (c # cs) old
      then new @ replace_at old new (drop (length old) (c # cs))
      else c # replace_at old new cs)"
  by pat_completeness auto
termination
  by (relation "measure (\<lambda>(old, new, s). length s)") (auto simp: startswith_def)

definition py_replace :: "string \<Rightarrow> string \<Rightarrow> string \<Rightarrow> string" where
  "py_replace old new s =
     (if old = [] then new @ concat (map (\<lambda>c. c # new) s) else replace_at old new s)"

text \<open>\<open>s.strip()\<close>: white space removed at both ends.\<close>

definition py_strip :: "string \<Rightarrow> string" where
  "py_strip s = rev (dropWhile is_space (rev (dropWhile is_space s)))"

text \<open>\<open>str(n)\<close> for an integer: decimal digits, with a minus sign when negative.\<close>

definition digit_char :: "nat \<Rightarrow> char" where
  "digit_char d = ''0123456789'' ! d"

fun str_nat :: "nat \<Rightarrow> string" where
  "str_nat n = (if n < 10 then [digit_char n] else str_nat (n div 10) @ [digit_char (n mod 10)])"

definition str_int :: "int \<Rightarrow> string" where
  "str_int i = (if i < 0 then CHR ''-'' # str_nat (nat (- i)) else str_nat (nat i))"

section \<open>The phone pattern\<close>

text \<open>
  The pattern \<open>\+(\d{1,3}[\s-]?\d{4,14})\<close> is a sequence of greedy bounded repetitions
  of one-character classes. \<open>match_seq\<close> is the backtracking matcher for such a
  sequence: each repetition first takes as many characters as it can (up to its upper
  bound) and gives them back one at a time while the rest of the pattern fails.
  The result is the length of the match anchored at the start of the text.
\<close>

type_synonym quant = "(char \<Rightarrow> bool) \<times> nat \<times> nat"

primrec try_counts :: "(string \<Rightarrow> nat option) \<Rightarrow> nat \<Rightarrow> nat \<Rightarrow> string \<Rightarrow> nat option" where
  "try_counts k lo 0 s = (if lo = 0 then k s else None)"
| "try_counts k lo (Suc n) s =
     (if Suc n < lo then None
      else (case k (drop (Suc n) s) of
              Some m \<Rightarrow> Some (Suc n + m)
            | None \<Rightarrow> try_counts k lo n s))"

primrec match_seq :: "quant list \<Rightarrow> string \<Rightarrow> nat option" where
  "match_seq [] s = Some 0"
| "match_seq (q # qs) s =
     (case q of (p, lo, hi) \<Rightarrow>
        try_counts (match_seq qs) lo (min hi (length (takeWhile p s))) s)"

text \<open>\<open>re.search\<close>: the leftmost position at which the pattern matches, with the
  length of the match there.\<close>

primrec re_search :: "quant list \<Rightarrow> string \<Rightarrow> (nat \<times> nat) option" where
  "re_search qs [] = map_option (\<lambda>m. (0, m)) (match_seq qs [])"
| "re_search qs (c # cs) =
     (case match_seq qs (c # cs) of
        Some m \<Rightarrow> Some (0, m)
      | None \<Rightarrow> map_option (\<lambda>(i, m). (Suc i, m)) (re_search qs cs))"

definition is_sep :: "char \<Rightarrow> bool" where
  "is_sep c = (is_space c \<or> c = CHR ''-'')"

definition phone_pattern :: "quant list" where
  "phone_pattern =
     [((\<lambda>c. c = CHR ''+''), 1, 1), (is_digit, 1, 3), (is_sep, 0, 1), (is_digit, 4, 14)]"

section \<open>Data model\<close>

text \<open>A contact is the dictionary with the keys \<open>display_name\<close>, \<open>phone_number\<close>
  and \<open>id\<close>.\<close>

record contact =
  display_name :: string
  phone_number :: string
  contact_id :: string

text \<open>
  A Python \<open>dict\<close> keeps its keys in insertion order: an association list with
  distinct keys. Assigning to a present key replaces the value in place, assigning
  to a new key appends the entry.
\<close>

primrec dict_set :: "('k \<times> 'v) list \<Rightarrow> 'k \<Rightarrow> 'v \<Rightarrow> ('k \<times> 'v) list" where
  "dict_set [] k v = [(k, v)]"
| "dict_set (p # ps) k v = (if fst p = k then (k, v) # ps else p # dict_set ps k v)"

record message_record =
  msg_id :: string
  msg_text :: string
  direction :: string
  timestamp :: string
  chat :: string

datatype py_exn = KeyError string | ValueError string | External string

datatype outbound = Sent_Message int string | Sent_File int string string

datatype log_entry = Info string | Error string

text \<open>
  The fields of the forwarder that the message pipeline uses, together with the
  world it acts on: what the Telegram client delivered (\<open>sent\<close>), the log, and the
  files the program has on disk.
\<close>

record state =
  contacts :: "(string \<times> contact) list"
  message_history :: "(string \<times> message_record list) list"
  chat_groups :: "(string \<times> string list) list"
  active_chats :: "string list"
  sent :: "outbound list"
  log :: "log_entry list"
  files :: "string list"

definition init_state :: state where
  "init_state = \<lparr>contacts = [], message_history = [], chat_groups = [], active_chats = [],
                  sent = [], log = [], files = []\<rparr>"

section \<open>Contact resolution\<close>

definition get_contact_info :: "string \<Rightarrow> state \<Rightarrow> contact \<times> state" where
  "get_contact_info sender st =
     (case map_of (contacts st) sender of
        Some c \<Rightarrow> (c, st)
      | None \<Rightarrow>
          (let phone_match = re_search phone_pattern sender;
               (dn, pn) =
                 (case phone_match of
                    Some (i, n) \<Rightarrow>
                      (let group0 = take n (drop i sender);
                           group1 = drop 1 group0;
                           phone = py_replace ''-'' '''' (py_replace '' '' '''' group1);
                           name = py_strip (py_replace (''('' @ group0 @ '')'') '''' sender)
                       in (if name = '''' then sender else name, phone))
                  | None \<Rightarrow>
                      (sender, ''unknown_'' @ str_nat (length (contacts st) + 1)));
               contact_info = \<lparr>display_name = dn, phone_number = pn, contact_id = pn\<rparr>
           in (contact_info, st\<lparr>contacts := dict_set (contacts st) sender contact_info\<rparr>)))"

text \<open>Successive resolutions, in order; the contacts returned and the final state.\<close>

fun resolve_all :: "string list \<Rightarrow> state \<Rightarrow> contact list \<times> state" where
  "resolve_all [] st = ([], st)"
| "resolve_all (s # ss) st =
     (case get_contact_info s st of (c, st1) \<Rightarrow>
        (case resolve_all ss st1 of (cs, st2) \<Rightarrow> (c # cs, st2)))"

section \<open>Observations and the environment\<close>

text \<open>
  \<open>message_data\<close> is a dictionary read with \<open>get\<close> and a default: a record of
  optional fields, \<open>None\<close> for an absent key.
\<close>

record observation =
  ob_id :: "string option"
  ob_sender :: "string option"
  ob_text :: "string option"
  ob_chat :: "string option"
  ob_is_outgoing :: "bool option"
  ob_has_media :: "bool option"
  ob_media_url :: "string option"
  ob_timestamp :: "string option"

definition get_default :: "'a option \<Rightarrow> 'a \<Rightarrow> 'a" where
  "get_default v d = (case v of Some x \<Rightarrow> x | None \<Rightarrow> d)"

text \<open>
  What the outside world answers during one call of \<open>process_message\<close>: the clock,
  the HTTP response to the media request, whether writing the transient file works,
  and whether the two Telegram calls return or raise (with the exception's text).
\<close>

datatype call_result = Returns | Raises string

datatype fetch_result = Fetch_Raises string | Fetch_Status nat

datatype write_result = Open_Raises string | Write_Raises string | Written

record env =
  now_iso :: string
  now_epoch :: int
  http_get :: "string \<Rightarrow> fetch_result"
  write_file :: write_result
  send_file_result :: call_result
  send_message_result :: call_result

record config =
  telegram_chat_id :: int
  max_message_length :: int

definition exn_str :: "py_exn \<Rightarrow> string" where
  "exn_str e = (case e of KeyError k \<Rightarrow> [CHR 0x27] @ k @ [CHR 0x27]
                        | ValueError m \<Rightarrow> m
                        | External m \<Rightarrow> m)"

definition log_info :: "string \<Rightarrow> state \<Rightarrow> state" where
  "log_info m st = st\<lparr>log := log st @ [Info m]\<rparr>"

definition log_error :: "string \<Rightarrow> state \<Rightarrow> state" where
  "log_error m st = st\<lparr>log := log st @ [Error m]\<rparr>"

text \<open>
  The pictographs, in the order of the definitions: outbox tray (U+1F4E4), inbox tray
  (U+1F4E5), bust in silhouette (U+1F464), speech balloon (U+1F4AC), memo (U+1F4DD) and
  clock face three o'clock (U+1F552).
\<close>

definition glyph_sent :: string where
  "glyph_sent = [CHR 0x01]"

definition glyph_received :: string where
  "glyph_received = [CHR 0x02]"

definition glyph_contact :: string where
  "glyph_contact = [CHR 0x03]"

definition glyph_chat :: string where
  "glyph_chat = [CHR 0x04]"

definition glyph_message :: string where
  "glyph_message = [CHR 0x05]"

definition glyph_time :: string where
  "glyph_time = [CHR 0x06]"

section \<open>The media pipeline\<close>

text \<open>\<open>s.rfind(c)\<close> for a single character: the last index of \<open>c\<close>, or \<open>-1\<close>.\<close>

definition rfind :: "char \<Rightarrow> string \<Rightarrow> int" where
  "rfind c s =
     (if c \<in> set s then int (length s) - 1 - int (length (takeWhile (\<lambda>x. x \<noteq> c) (rev s)))
      else - 1)"

text \<open>
  The extension part of \<open>os.path.splitext\<close> (POSIX): from the last dot of the last
  path component, unless that component consists of leading dots only up to there.
\<close>

definition splitext_ext :: "string \<Rightarrow> string" where
  "splitext_ext p =
     (let sepIndex = rfind CHR ''/'' p; dotIndex = rfind CHR ''.'' p
      in if dotIndex > sepIndex \<and>
            list_ex (\<lambda>c. c \<noteq> CHR ''.'')
              (take (nat (dotIndex - (sepIndex + 1))) (drop (nat (sepIndex + 1)) p))
         then drop (nat dotIndex) p else '''')"

definition create_file :: "string \<Rightarrow> state \<Rightarrow> state" where
  "create_file name st =
     st\<lparr>files := (if name \<in> set (files st) then files st else files st @ [name])\<rparr>"

text \<open>
  The body of the \<open>try\<close> block of \<open>download_and_send_media\<close>. The first component
  is the exception that leaves the block, if any; the state is the one reached when
  it is raised.
\<close>

definition download_body ::
  "config \<Rightarrow> env \<Rightarrow> string \<Rightarrow> contact \<Rightarrow> string \<Rightarrow> string \<Rightarrow> string \<Rightarrow> state
     \<Rightarrow> py_exn option \<times> state" where
  "download_body cfg ev media_url contact_info dir chat_title ts st =
     (let temp_filename = ''temp_media_'' @ str_int (now_epoch ev) @ splitext_ext media_url
      in case http_get ev media_url of
           Fetch_Raises m \<Rightarrow> (Some (External m), st)
         | Fetch_Status status \<Rightarrow>
             if status = 200 then
               (case write_file ev of
                  Open_Raises m \<Rightarrow> (Some (External m), st)
                | Write_Raises m \<Rightarrow> (Some (External m), create_file temp_filename st)
                | Written \<Rightarrow>
                    (let st1 = create_file temp_filename st;
                         caption =
                           dir @ '' WhatsApp Media'' @ nl @
                           glyph_contact @ '' Contact: '' @ display_name contact_info @
                             '' ('' @ phone_number contact_info @ '')'' @ nl @
                           glyph_chat @ '' Chat: '' @ chat_title @ nl @
                           glyph_time @ '' Time: '' @ ts
                     in case send_file_result ev of
                          Raises m \<Rightarrow> (Some (External m), st1)
                        | Returns \<Rightarrow>
                            (let st2 = st1\<lparr>sent := sent st1 @
                                         [Sent_File (telegram_chat_id cfg) temp_filename caption]\<rparr>;
                                 st3 = log_info (''Media forwarded to Telegram: '' @ dir @
                                                   '' - '' @ display_name contact_info) st2
                             in if temp_filename \<in> set (files st3)
                                then (None, st3\<lparr>files := removeAll temp_filename (files st3)\<rparr>)
                                else (Some (External ''FileNotFoundError''), st3))))
             else (None, log_error (''Failed to download media: HTTP '' @ str_nat status) st))"

definition download_and_send_media ::
  "config \<Rightarrow> env \<Rightarrow> string \<Rightarrow> contact \<Rightarrow> string \<Rightarrow> string \<Rightarrow> string \<Rightarrow> state
     \<Rightarrow> py_exn option \<times> state" where
  "download_and_send_media cfg ev media_url contact_info dir chat_title ts st =
     (case download_body cfg ev media_url contact_info dir chat_title ts st of
        (None, st1) \<Rightarrow> (None, st1)
      | (Some e, st1) \<Rightarrow>
          (None, log_error (''Error downloading and sending media: '' @ exn_str e) st1))"

section \<open>The message processor\<close>

text \<open>\<open>d[k].append(v)\<close> after \<open>if k not in d: d[k] = []\<close>.\<close>

definition dict_append :: "('k \<times> 'v list) list \<Rightarrow> 'k \<Rightarrow> 'v \<Rightarrow> ('k \<times> 'v list) list" where
  "dict_append d k v =
     (let d1 = (if map_of d k = None then dict_set d k [] else d)
      in dict_set d1 k ((case map_of d1 k of Some l \<Rightarrow> l | None \<Rightarrow> []) @ [v]))"

definition make_record :: "env \<Rightarrow> observation \<Rightarrow> message_record" where
  "make_record ev md =
     \<lparr>msg_id = get_default (ob_id md) '''',
      msg_text = get_default (ob_text md) '''',
      direction = (if get_default (ob_is_outgoing md) False then ''outgoing'' else ''incoming''),
      timestamp = get_default (ob_timestamp md) (now_iso ev),
      chat = get_default (ob_chat md) ''Unknown Chat''\<rparr>"

text \<open>\<open>has_media and media_url\<close>: the flag is set and the locator is a non-empty string.\<close>

definition declares_media :: "observation \<Rightarrow> bool" where
  "declares_media md =
     (get_default (ob_has_media md) False \<and>
      (case ob_media_url md of None \<Rightarrow> False | Some u \<Rightarrow> u \<noteq> ''''))"

definition process_message ::
  "config \<Rightarrow> env \<Rightarrow> observation \<Rightarrow> state \<Rightarrow> py_exn option \<times> state" where
  "process_message cfg ev md st =
     (let sender = get_default (ob_sender md) ''Unknown'';
          text = get_default (ob_text md) '''';
          chat_title = get_default (ob_chat md) ''Unknown Chat'';
          is_outgoing = get_default (ob_is_outgoing md) False;
          ts = get_default (ob_timestamp md) (now_iso ev);
          (contact_info, st1) = get_contact_info sender st;
          dir = (if is_outgoing then glyph_sent @ '' Sent'' else glyph_received @ '' Received'');
          st2 =
            (if declares_media md then
               (case download_and_send_media cfg ev (get_default (ob_media_url md) '''')
                       contact_info dir chat_title ts st1 of
                  (None, s) \<Rightarrow> s
                | (Some e, s) \<Rightarrow>
                    log_error (''Error processing media message: '' @ exn_str e) s)
             else st1)
      in if text \<noteq> '''' then
           (let formatted_msg =
                  dir @ '' WhatsApp Message'' @ nl @
                  glyph_contact @ '' Contact: '' @ display_name contact_info @
                    '' ('' @ phone_number contact_info @ '')'' @ nl @
                  glyph_chat @ '' Chat: '' @ chat_title @ nl @
                  glyph_message @ '' Message: '' @ text @ nl @
                  glyph_time @ '' Time: '' @ ts;
                k = contact_id contact_info;
                st3 = st2\<lparr>message_history :=
                             dict_append (message_history st2) k (make_record ev md),
                          chat_groups := dict_append (chat_groups st2) k formatted_msg,
                          active_chats :=
                            (if k \<in> set (active_chats st2) then active_chats st2
                             else active_chats st2 @ [k])\<rparr>
            in case send_message_result ev of
                 Returns \<Rightarrow>
                   (None,
                    log_info (''Message forwarded to Telegram: '' @ dir @ '' - '' @ sender @
                                '' - '' @ take 50 text @ ''...'')
                      (st3\<lparr>sent := sent st3 @
                              [Sent_Message (telegram_chat_id cfg) formatted_msg]\<rparr>))
               | Raises m \<Rightarrow>
                   (None, log_error (''Error forwarding message to Telegram: '' @ m) st3))
         else (None, st2))"

text \<open>The history of a contact id, empty when the id has no entry.\<close>

definition history_of :: "string \<Rightarrow> state \<Rightarrow> message_record list" where
  "history_of k st = (case map_of (message_history st) k of Some l \<Rightarrow> l | None \<Rightarrow> [])"

text \<open>A run of the processor over observations, each with the world's answers for it.\<close>

fun run :: "config \<Rightarrow> (env \<times> observation) list \<Rightarrow> state \<Rightarrow> state" where
  "run cfg [] st = st"
| "run cfg ((ev, md) # rest) st = run cfg rest (snd (process_message cfg ev md st))"

section \<open>Bot commands\<close>

text \<open>\<open>s.lower()\<close> on code points below 256: the ASCII capitals and the capitals of
  the Latin-1 block move to their small letters, every other character stays.\<close>

definition upper_chars :: string where
  "upper_chars = ''ABCDEFGHIJKLMNOPQRSTUVWXYZ'' @
       [CHR 0xC0, CHR 0xC1, CHR 0xC2, CHR 0xC3, CHR 0xC4, CHR 0xC5, CHR 0xC6, CHR 0xC7,
        CHR 0xC8, CHR 0xC9, CHR 0xCA, CHR 0xCB, CHR 0xCC, CHR 0xCD, CHR 0xCE, CHR 0xCF,
        CHR 0xD0, CHR 0xD1, CHR 0xD2, CHR 0xD3, CHR 0xD4, CHR 0xD5, CHR 0xD6, CHR 0xD8,
        CHR 0xD9, CHR 0xDA, CHR 0xDB, CHR 0xDC, CHR 0xDD, CHR 0xDE]"

definition lower_chars :: string where
  "lower_chars = ''abcdefghijklmnopqrstuvwxyz'' @
       [CHR 0xE0, CHR 0xE1, CHR 0xE2, CHR 0xE3, CHR 0xE4, CHR 0xE5, CHR 0xE6, CHR 0xE7,
        CHR 0xE8, CHR 0xE9, CHR 0xEA, CHR 0xEB, CHR 0xEC, CHR 0xED, CHR 0xEE, CHR 0xEF,
        CHR 0xF0, CHR 0xF1, CHR 0xF2, CHR 0xF3, CHR 0xF4, CHR 0xF5, CHR 0xF6, CHR 0xF8,
        CHR 0xF9, CHR 0xFA, CHR 0xFB, CHR 0xFC, CHR 0xFD, CHR 0xFE]"

definition lower_char :: "char \<Rightarrow> char" where
  "lower_char c = (case map_of (zip upper_chars lower_chars) c of Some l \<Rightarrow> l | None \<Rightarrow> c)"

definition py_lower :: "string \<Rightarrow> string" where
  "py_lower s = map lower_char s"

text \<open>\<open>sub in s\<close> for strings: \<open>sub\<close> occurs in \<open>s\<close> as a substring.\<close>

primrec py_in :: "string \<Rightarrow> string \<Rightarrow> bool" where
  "py_in sub [] = (sub = [])"
| "py_in sub (c # cs) = (startswith (c # cs) sub \<or> py_in sub cs)"

text \<open>\<open>xs[-10:]\<close>.\<close>

definition last10 :: "'a list \<Rightarrow> 'a list" where
  "last10 xs = drop (length xs - 10) xs"

text \<open>
  A handler returns the exception it raises, if any, the replies it has issued with
  \<open>event.respond\<close>, in order, and the state it leaves.

  The loop of \<open>chats_handler\<close>: the contacts dictionary is keyed by raw sender string
  and is read here with a contact id; for an id that is no key the default dictionary
  has \<open>display_name\<close> only, and reading \<open>phone_number\<close> from it raises \<open>KeyError\<close>.
\<close>

fun chat_lines :: "(string \<times> contact) list \<Rightarrow> string \<Rightarrow> nat \<Rightarrow> string list \<Rightarrow> py_exn + string" where
  "chat_lines cs acc i [] = Inr acc"
| "chat_lines cs acc i (k # ks) =
     (case map_of cs k of
        None \<Rightarrow> Inl (KeyError ''phone_number'')
      | Some c \<Rightarrow>
          chat_lines cs
            (acc @ str_nat i @ ''. '' @ display_name c @ '' ('' @ phone_number c @ '')'' @ nl)
            (Suc i) ks)"

definition chats_handler :: "state \<Rightarrow> py_exn option \<times> string list \<times> state" where
  "chats_handler st =
     (if active_chats st = [] then (None, [''No active chats yet.''], st)
      else (case chat_lines (contacts st) (''Recent Chats:'' @ nl) 1 (last10 (active_chats st)) of
              Inl e \<Rightarrow> (Some e, [], st)
            | Inr chat_list \<Rightarrow> (None, [chat_list], st)))"

text \<open>\<open>range(0, stop, step)\<close> as a list.\<close>

definition py_range0 :: "int \<Rightarrow> int \<Rightarrow> py_exn + int list" where
  "py_range0 stop step =
     (if step = 0 then Inl (ValueError ''range() arg 3 must not be zero'')
      else if step > 0 then
        Inr (map (\<lambda>k. int k * step) [0..<nat ((stop + step - 1) div step)])
      else
        Inr (map (\<lambda>k. int k * step) [0..<nat ((- stop - step - 1) div (- step))]))"

text \<open>\<open>xs[i:j]\<close>: negative indices count from the end, both are clipped to the list.\<close>

definition py_slice :: "'a list \<Rightarrow> int \<Rightarrow> int \<Rightarrow> 'a list" where
  "py_slice xs i j =
     (let n = int (length xs);
          a = max 0 (min n (if i < 0 then i + n else i));
          b = max 0 (min n (if j < 0 then j + n else j))
      in drop (nat a) (take (nat b) xs))"

text \<open>The end of \<open>history_handler\<close>: the history text is sent whole, or in chunks when
  it is longer than the configured maximum.\<close>

definition respond_history :: "int \<Rightarrow> string \<Rightarrow> py_exn + string list" where
  "respond_history maxlen history_text =
     (if int (length history_text) > maxlen then
        (case py_range0 (int (length history_text)) maxlen of
           Inl e \<Rightarrow> Inl e
         | Inr is \<Rightarrow> Inr (map (\<lambda>i. py_slice history_text i (i + maxlen)) is))
      else Inr [history_text])"

definition find_contact :: "(string \<times> contact) list \<Rightarrow> string \<Rightarrow> string option" where
  "find_contact cs contact_name =
     map_option fst
       (find (\<lambda>(k, c). py_in (py_lower contact_name) (py_lower (display_name c)) \<or>
                        py_in contact_name (phone_number c)) cs)"

definition history_line :: "message_record \<Rightarrow> string" where
  "history_line msg =
     (if direction msg = ''outgoing'' then glyph_sent else glyph_received) @ '' '' @
     msg_text msg @ '' ('' @ timestamp msg @ '')'' @ nl @ nl"

text \<open>The text \<open>history_handler\<close> builds for a contact name, when it finds a history.\<close>

definition history_text_for :: "state \<Rightarrow> string \<Rightarrow> (py_exn + string) option" where
  "history_text_for st contact_name =
     (case find_contact (contacts st) contact_name of
        None \<Rightarrow> None
      | Some target \<Rightarrow>
          if target = '''' then None
          else (case map_of (message_history st) target of
                  None \<Rightarrow> None
                | Some msgs \<Rightarrow>
                    (case map_of (contacts st) target of
                       None \<Rightarrow> Some (Inl (KeyError target))
                     | Some c \<Rightarrow>
                         Some (Inr (''Last 10 messages with '' @ display_name c @ '':'' @ nl @ nl @
                                    concat (map history_line (last10 msgs)))))))"

definition history_handler ::
  "config \<Rightarrow> string \<Rightarrow> state \<Rightarrow> py_exn option \<times> string list \<times> state" where
  "history_handler cfg contact_name st =
     (case history_text_for st contact_name of
        None \<Rightarrow> (None, [''No message history found for: '' @ contact_name], st)
      | Some (Inl e) \<Rightarrow> (Some e, [], st)
      | Some (Inr history_text) \<Rightarrow>
          (case respond_history (max_message_length cfg) history_text of
             Inl e \<Rightarrow> (Some e, [], st)
           | Inr segments \<Rightarrow> (None, segments, st)))"

text \<open>
  The two blocks of \<open>process_message\<close> on their own, as functions of the resolved
  contact and the state each block starts from; \<open>process_message\<close> is their
  composition (lemma \<open>process_message_parts\<close>).
\<close>

definition direction_label :: "observation \<Rightarrow> string" where
  "direction_label md =
     (if get_default (ob_is_outgoing md) False then glyph_sent @ '' Sent''
      else glyph_received @ '' Received'')"

definition media_part :: "config \<Rightarrow> env \<Rightarrow> observation \<Rightarrow> contact \<Rightarrow> state \<Rightarrow> state" where
  "media_part cfg ev md contact_info st1 =
     (if declares_media md then
        (case download_and_send_media cfg ev (get_default (ob_media_url md) '''')
                contact_info (direction_label md) (get_default (ob_chat md) ''Unknown Chat'')
                (get_default (ob_timestamp md) (now_iso ev)) st1 of
           (None, s) \<Rightarrow> s
         | (Some e, s) \<Rightarrow> log_error (''Error processing media message: '' @ exn_str e) s)
      else st1)"

definition format_message :: "env \<Rightarrow> observation \<Rightarrow> contact \<Rightarrow> string" where
  "format_message ev md contact_info =
     direction_label md @ '' WhatsApp Message'' @ nl @
     glyph_contact @ '' Contact: '' @ display_name contact_info @
       '' ('' @ phone_number contact_info @ '')'' @ nl @
     glyph_chat @ '' Chat: '' @ get_default (ob_chat md) ''Unknown Chat'' @ nl @
     glyph_message @ '' Message: '' @ get_default (ob_text md) '''' @ nl @
     glyph_time @ '' Time: '' @ get_default (ob_timestamp md) (now_iso ev)"

definition record_message :: "env \<Rightarrow> observation \<Rightarrow> contact \<Rightarrow> state \<Rightarrow> state" where
  "record_message ev md contact_info st2 =
     st2\<lparr>message_history :=
           dict_append (message_history st2) (contact_id contact_info) (make_record ev md),
         chat_groups :=
           dict_append (chat_groups st2) (contact_id contact_info)
             (format_message ev md contact_info),
         active_chats :=
           (if contact_id contact_info \<in> set (active_chats st2) then active_chats st2
            else active_chats st2 @ [contact_id contact_info])\<rparr>"

definition text_part :: "config \<Rightarrow> env \<Rightarrow> observation \<Rightarrow> contact \<Rightarrow> state \<Rightarrow> state" where
  "text_part cfg ev md contact_info st2 =
     (if get_default (ob_text md) '''' \<noteq> '''' then
        (let st3 = record_message ev md contact_info st2
         in case send_message_result ev of
              Returns \<Rightarrow>
                log_info (''Message forwarded to Telegram: '' @ direction_label md @ '' - '' @
                            get_default (ob_sender md) ''Unknown'' @ '' - '' @
                            take 50 (get_default (ob_text md) '''') @ ''...'')
                  (st3\<lparr>sent := sent st3 @
                          [Sent_Message (telegram_chat_id cfg)
                             (format_message ev md contact_info)]\<rparr>)
            | Raises m \<Rightarrow> log_error (''Error forwarding message to Telegram: '' @ m) st3)
      else st2)"

section \<open>Example inputs\<close>

text \<open>A configuration, a world in which every external call succeeds, and observations
  with chosen fields, for the concrete instances below.\<close>

definition example_config :: config where
  "example_config = \<lparr>telegram_chat_id = 42, max_message_length = 4096\<rparr>"

definition example_env :: env where
  "example_env =
     \<lparr>now_iso = ''2023-11-14T22:13:20'', now_epoch = 1700000000,
      http_get = (\<lambda>u. Fetch_Status 200), write_file = Written,
      send_file_result = Returns, send_message_result = Returns\<rparr>"

definition text_observation :: "string \<Rightarrow> string \<Rightarrow> string \<Rightarrow> observation" where
  "text_observation i s t =
     \<lparr>ob_id = Some i, ob_sender = Some s, ob_text = Some t, ob_chat = Some s,
      ob_is_outgoing = Some False, ob_has_media = Some False, ob_media_url = None,
      ob_timestamp = Some ''2023-11-14T22:13:20''\<rparr>"

definition media_observation :: "string \<Rightarrow> string \<Rightarrow> string \<Rightarrow> string \<Rightarrow> observation" where
  "media_observation i s t u =
     \<lparr>ob_id = Some i, ob_sender = Some s, ob_text = Some t, ob_chat = Some s,
      ob_is_outgoing = Some False, ob_has_media = Some True, ob_media_url = Some u,
      ob_timestamp = Some ''2023-11-14T22:13:20''\<rparr>"

section \<open>Dictionaries\<close>

lemma map_of_dict_set_same: "map_of (dict_set d k v) k = Some v"
  by (induction d) auto

lemma map_of_dict_set_other: "k' \<noteq> k \<Longrightarrow> map_of (dict_set d k v) k' = map_of d k'"
  by (induction d) auto

lemma dict_set_fresh: "map_of d k = None \<Longrightarrow> dict_set d k v = d @ [(k, v)]"
  by (induction d) (auto split: if_splits)

lemma length_dict_set_fresh: "map_of d k = None \<Longrightarrow> length (dict_set d k v) = Suc (length d)"
  by (simp add: dict_set_fresh)

lemma length_dict_set_present: "map_of d k = Some w \<Longrightarrow> length (dict_set d k v) = length d"
  by (induction d) (auto split: if_splits)

section \<open>Identity stability of contact resolution\<close>

lemma get_contact_info_hit:
  "map_of (contacts st) s = Some c \<Longrightarrow> get_contact_info s st = (c, st)"
  by (simp add: get_contact_info_def)

lemma get_contact_info_miss:
  "map_of (contacts st) s = None \<Longrightarrow>
     \<exists>c. get_contact_info s st = (c, st\<lparr>contacts := dict_set (contacts st) s c\<rparr>)"
  by (simp add: get_contact_info_def Let_def split: prod.splits)

lemma get_contact_info_caches:
  "map_of (contacts (snd (get_contact_info s st))) s = Some (fst (get_contact_info s st))"
proof (cases "map_of (contacts st) s")
  case None
  from get_contact_info_miss [OF this] show ?thesis
    by (auto simp: map_of_dict_set_same)
next
  case (Some c)
  then show ?thesis by (simp add: get_contact_info_hit)
qed

lemma get_contact_info_keeps:
  assumes "map_of (contacts st) s = Some c"
  shows "map_of (contacts (snd (get_contact_info t st))) s = Some c"
proof (cases "map_of (contacts st) t")
  case None
  then have "t \<noteq> s" using assms by auto
  with get_contact_info_miss [OF None] assms show ?thesis
    by (auto simp: map_of_dict_set_other)
next
  case (Some d)
  then show ?thesis using assms by (simp add: get_contact_info_hit)
qed

lemma resolve_all_keeps:
  "map_of (contacts st) s = Some c \<Longrightarrow> map_of (contacts (snd (resolve_all ts st))) s = Some c"
proof (induction ts arbitrary: st)
  case Nil
  then show ?case by simp
next
  case (Cons t ts)
  obtain c1 st1 where r: "get_contact_info t st = (c1, st1)"
    by (cases "get_contact_info t st")
  have "map_of (contacts st1) s = Some c"
    using get_contact_info_keeps [OF Cons.prems, of t] r by simp
  from Cons.IH [OF this] show ?case
    using r by (auto split: prod.splits)
qed

lemma first_unknown_caller:
  "get_contact_info ''Unknown Caller'' init_state =
     (\<lparr>display_name = ''Unknown Caller'', phone_number = ''unknown_1'',
       contact_id = ''unknown_1''\<rparr>,
      init_state\<lparr>contacts := [(''Unknown Caller'',
         \<lparr>display_name = ''Unknown Caller'', phone_number = ''unknown_1'',
          contact_id = ''unknown_1''\<rparr>)]\<rparr>)"
  by (simp add: get_contact_info_def init_state_def phone_pattern_def is_digit_def is_sep_def
        is_space_def Let_def digit_char_def)

text \<open>
  Claim C1. Resolving a sender string a second time returns the contact of the first
  resolution and leaves the state as it is (the cached entry is returned, nothing is
  computed or stored); this stays so after any other senders have been resolved in
  between. In particular, from the initial state ``Unknown Caller'' resolves to a
  contact with phone number \<open>unknown_1\<close>, and resolving it again returns that same
  contact and does not add a contact.
\<close>

theorem resolve_twice_identical:
  "get_contact_info s (snd (get_contact_info s st)) = get_contact_info s st
   \<and> get_contact_info s (snd (resolve_all ts (snd (get_contact_info s st))))
       = (fst (get_contact_info s st), snd (resolve_all ts (snd (get_contact_info s st))))
   \<and> phone_number (fst (get_contact_info ''Unknown Caller'' init_state)) = ''unknown_1''
   \<and> get_contact_info ''Unknown Caller'' (snd (get_contact_info ''Unknown Caller'' init_state))
       = get_contact_info ''Unknown Caller'' init_state
   \<and> length (contacts (snd (get_contact_info ''Unknown Caller''
                (snd (get_contact_info ''Unknown Caller'' init_state))))) = 1"
proof -
  have a: "get_contact_info s (snd (get_contact_info s st)) = get_contact_info s st" for s st
    using get_contact_info_hit [OF get_contact_info_caches, of s st] by simp
  have b: "get_contact_info s (snd (resolve_all ts (snd (get_contact_info s st))))
      = (fst (get_contact_info s st), snd (resolve_all ts (snd (get_contact_info s st))))"
    by (rule get_contact_info_hit [OF resolve_all_keeps [OF get_contact_info_caches]])
  have c: "phone_number (fst (get_contact_info ''Unknown Caller'' init_state)) = ''unknown_1''"
    by (simp add: first_unknown_caller)
  have d: "length (contacts (snd (get_contact_info ''Unknown Caller''
                (snd (get_contact_info ''Unknown Caller'' init_state))))) = 1"
    unfolding a by (simp add: first_unknown_caller)
  show ?thesis
    using a [of s st] a [of "''Unknown Caller''" init_state] b c d by blast
qed

section \<open>Placeholder numbering\<close>

lemma digit_char_inj: "a < 10 \<Longrightarrow> b < 10 \<Longrightarrow> digit_char a = digit_char b \<Longrightarrow> a = b"
proof -
  assume a: "a < 10" and b: "b < 10" and e: "digit_char a = digit_char b"
  have d: "distinct ''0123456789''" by simp
  have "length ''0123456789'' = 10" by simp
  with a b e d show "a = b"
    unfolding digit_char_def by (simp only: nth_eq_iff_index_eq)
qed

lemma str_nat_nonempty: "str_nat n \<noteq> []"
  by (subst str_nat.simps) simp

lemma str_nat_inj: "str_nat m = str_nat n \<Longrightarrow> m = n"
proof (induction m arbitrary: n rule: str_nat.induct)
  case (1 m)
  show ?case
  proof (cases "m < 10")
    case m: True
    show ?thesis
    proof (cases "n < 10")
      case True
      with m "1.prems" have "digit_char m = digit_char n"
        by (simp add: str_nat.simps [of m] str_nat.simps [of n])
      then show ?thesis using m True by (rule digit_char_inj [rotated 2])
    next
      case False
      with m "1.prems" have "[digit_char m] = str_nat (n div 10) @ [digit_char (n mod 10)]"
        by (simp add: str_nat.simps [of m] str_nat.simps [of n])
      then have "str_nat (n div 10) = []" by simp
      then show ?thesis using str_nat_nonempty by blast
    qed
  next
    case m: False
    show ?thesis
    proof (cases "n < 10")
      case True
      with m "1.prems" have "str_nat (m div 10) @ [digit_char (m mod 10)] = [digit_char n]"
        by (simp add: str_nat.simps [of m] str_nat.simps [of n])
      then have "str_nat (m div 10) = []" by simp
      then show ?thesis using str_nat_nonempty by blast
    next
      case False
      with m "1.prems" have e: "str_nat (m div 10) @ [digit_char (m mod 10)]
                         = str_nat (n div 10) @ [digit_char (n mod 10)]"
        by (simp add: str_nat.simps [of m] str_nat.simps [of n])
      then have "str_nat (m div 10) = str_nat (n div 10)"
        and d: "digit_char (m mod 10) = digit_char (n mod 10)"
        by simp_all
      with "1.IH" [OF m] have q: "m div 10 = n div 10" by blast
      have "m mod 10 = n mod 10"
        using d by (intro digit_char_inj) simp_all
      with q show ?thesis
        by (metis div_mult_mod_eq)
    qed
  qed
qed

lemma get_contact_info_unmatched:
  assumes "re_search phone_pattern s = None" and "map_of (contacts st) s = None"
  shows "get_contact_info s st =
           (\<lparr>display_name = s,
             phone_number = ''unknown_'' @ str_nat (length (contacts st) + 1),
             contact_id = ''unknown_'' @ str_nat (length (contacts st) + 1)\<rparr>,
            st\<lparr>contacts := contacts st @
                   [(s, \<lparr>display_name = s,
                         phone_number = ''unknown_'' @ str_nat (length (contacts st) + 1),
                         contact_id = ''unknown_'' @ str_nat (length (contacts st) + 1)\<rparr>)]\<rparr>)"
  unfolding get_contact_info_def assms Let_def
  by (simp only: option.case prod.case dict_set_fresh [OF assms(2)])

lemma get_contact_info_count:
  "length (contacts st) \<le> length (contacts (snd (get_contact_info s st)))"
proof (cases "map_of (contacts st) s")
  case None
  from get_contact_info_miss [OF this] show ?thesis
    by (auto simp: length_dict_set_fresh None)
next
  case (Some c)
  then show ?thesis by (simp add: get_contact_info_hit)
qed

lemma get_contact_info_count_fresh:
  "map_of (contacts st) s = None \<Longrightarrow>
     length (contacts (snd (get_contact_info s st))) = Suc (length (contacts st))"
  using get_contact_info_miss [of st s] by (auto simp: length_dict_set_fresh)

lemma get_contact_info_other_absent:
  assumes "map_of (contacts st) s = None" and "s \<noteq> t"
  shows "map_of (contacts (snd (get_contact_info t st))) s = None"
proof (cases "map_of (contacts st) t")
  case None
  from get_contact_info_miss [OF this] assms show ?thesis
    by (auto simp: map_of_dict_set_other)
next
  case (Some c)
  then show ?thesis using assms by (simp add: get_contact_info_hit)
qed

lemma resolve_all_Cons:
  "resolve_all (s # ss) st =
     (fst (get_contact_info s st) # fst (resolve_all ss (snd (get_contact_info s st))),
      snd (resolve_all ss (snd (get_contact_info s st))))"
  by (simp split: prod.splits)

lemma resolve_all_append:
  "resolve_all (xs @ ys) st =
     (fst (resolve_all xs st) @ fst (resolve_all ys (snd (resolve_all xs st))),
      snd (resolve_all ys (snd (resolve_all xs st))))"
proof (induction xs arbitrary: st)
  case Nil
  then show ?case by simp
next
  case (Cons x xs)
  show ?case
    unfolding append_Cons resolve_all_Cons Cons.IH fst_conv snd_conv ..
qed

lemma resolve_all_length: "length (fst (resolve_all xs st)) = length xs"
proof (induction xs arbitrary: st)
  case Nil
  then show ?case by simp
next
  case (Cons x xs)
  show ?case
    unfolding resolve_all_Cons fst_conv by (simp add: Cons.IH)
qed

lemma resolve_all_count:
  "length (contacts st) \<le> length (contacts (snd (resolve_all xs st)))"
proof (induction xs arbitrary: st)
  case Nil
  then show ?case by simp
next
  case (Cons x xs)
  have "length (contacts st) \<le> length (contacts (snd (get_contact_info x st)))"
    by (rule get_contact_info_count)
  also have "\<dots> \<le> length (contacts (snd (resolve_all xs (snd (get_contact_info x st)))))"
    by (rule Cons.IH)
  finally show ?case
    unfolding resolve_all_Cons snd_conv .
qed

lemma resolve_all_absent:
  "map_of (contacts st) s = None \<Longrightarrow> s \<notin> set xs \<Longrightarrow>
     map_of (contacts (snd (resolve_all xs st))) s = None"
proof (induction xs arbitrary: st)
  case Nil
  then show ?case by simp
next
  case (Cons x xs)
  from Cons.prems have "map_of (contacts (snd (get_contact_info x st))) s = None"
    by (intro get_contact_info_other_absent) auto
  moreover from Cons.prems(2) have "s \<notin> set xs" by simp
  ultimately show ?case
    unfolding resolve_all_Cons snd_conv by (rule Cons.IH)
qed

lemma take_split:
  assumes "i < j" and "j \<le> length ss"
  shows "take j ss = take i ss @ (ss ! i # drop (Suc i) (take j ss))"
proof -
  have l: "i < length (take j ss)" using assms by simp
  have a: "take i (take j ss) = take i ss" using assms by (simp add: min_def)
  have b: "take j ss ! i = ss ! i" using assms by simp
  show ?thesis
    using id_take_nth_drop [OF l] unfolding a b .
qed

lemma resolve_all_after:
  assumes "i < j" and "j \<le> length ss"
  shows "snd (resolve_all (take j ss) st) =
           snd (resolve_all (drop (Suc i) (take j ss))
                  (snd (get_contact_info (ss ! i) (snd (resolve_all (take i ss) st)))))"
proof -
  have "snd (resolve_all (take i ss @ (ss ! i # drop (Suc i) (take j ss))) st) =
           snd (resolve_all (drop (Suc i) (take j ss))
                  (snd (get_contact_info (ss ! i) (snd (resolve_all (take i ss) st)))))"
    unfolding resolve_all_append resolve_all_Cons snd_conv ..
  then show ?thesis
    unfolding take_split [OF assms, symmetric] .
qed

lemma resolve_all_nth:
  assumes "j < length ss"
  shows "fst (resolve_all ss st) ! j =
           fst (get_contact_info (ss ! j) (snd (resolve_all (take j ss) st)))"
proof -
  have l: "length (fst (resolve_all (take j ss) st)) = j"
    using assms by (simp add: resolve_all_length)
  have "fst (resolve_all (take j ss @ (ss ! j # drop (Suc j) ss)) st) ! j =
           fst (get_contact_info (ss ! j) (snd (resolve_all (take j ss) st)))"
    unfolding resolve_all_append resolve_all_Cons fst_conv
    using l by (simp add: nth_append)
  then show ?thesis
    unfolding id_take_nth_drop [OF assms, symmetric] .
qed

lemma resolve_all_count_grows:
  assumes "i < j" and "j \<le> length ss"
    and "map_of (contacts (snd (resolve_all (take i ss) st))) (ss ! i) = None"
  shows "length (contacts (snd (resolve_all (take i ss) st)))
           < length (contacts (snd (resolve_all (take j ss) st)))"
proof -
  let ?si = "snd (resolve_all (take i ss) st)"
  have "length (contacts (snd (get_contact_info (ss ! i) ?si))) = Suc (length (contacts ?si))"
    by (rule get_contact_info_count_fresh [OF assms(3)])
  then show ?thesis
    unfolding resolve_all_after [OF assms(1,2)]
    using resolve_all_count [of "snd (get_contact_info (ss ! i) ?si)" "drop (Suc i) (take j ss)"]
    by simp
qed

lemma resolve_all_repeat:
  assumes "j \<le> k" and "k < length ss" and "ss ! k = ss ! j"
  shows "fst (resolve_all ss st) ! k = fst (resolve_all ss st) ! j"
proof (cases "j = k")
  case True
  then show ?thesis by simp
next
  case False
  with assms(1) have jk: "j < k" by simp
  let ?sj = "snd (resolve_all (take j ss) st)"
  have kl: "k \<le> length ss" using assms(2) by simp
  have jl: "j < length ss" using jk assms(2) by simp
  have "get_contact_info (ss ! j) (snd (resolve_all (take k ss) st)) =
          (fst (get_contact_info (ss ! j) ?sj), snd (resolve_all (take k ss) st))"
    unfolding resolve_all_after [OF jk kl]
    by (rule get_contact_info_hit [OF resolve_all_keeps [OF get_contact_info_caches]])
  then show ?thesis
    unfolding resolve_all_nth [OF assms(2)] resolve_all_nth [OF jl] assms(3) by simp
qed

text \<open>
  Claim C3. Take any run of resolutions, of the senders \<open>ss\<close> in order from a state
  \<open>st\<close>, and a sender \<open>ss ! j\<close> in which the phone pattern matches nowhere and which
  is resolved at position \<open>j\<close> for the first time (it is neither stored in \<open>st\<close> nor
  among the senders before it). Then this call of \<open>get_contact_info\<close> returns the
  contact whose display name is the raw sender and whose phone number and id are
  \<open>unknown_\<close> followed by the number of contacts at that moment plus one, and stores it
  under the sender. Every earlier sender of the same kind received a strictly smaller
  number, hence another id: the placeholder numbers increase in the order of first
  appearance. A later resolution of the same sender returns the same contact. The
  number is positional only: in a fresh run, from the initial state, every such
  sender receives \<open>unknown_1\<close>.
\<close>

theorem placeholder_ids_positional:
  assumes "j < length ss"
    and "re_search phone_pattern (ss ! j) = None"
    and "map_of (contacts st) (ss ! j) = None"
    and "ss ! j \<notin> set (take j ss)"
  shows "fst (resolve_all ss st) ! j =
           \<lparr>display_name = ss ! j,
            phone_number =
              ''unknown_'' @ str_nat (length (contacts (snd (resolve_all (take j ss) st))) + 1),
            contact_id =
              ''unknown_'' @ str_nat (length (contacts (snd (resolve_all (take j ss) st))) + 1)\<rparr>
       \<and> get_contact_info (ss ! j) (snd (resolve_all (take j ss) st)) =
           (fst (resolve_all ss st) ! j,
            (snd (resolve_all (take j ss) st))
              \<lparr>contacts := contacts (snd (resolve_all (take j ss) st)) @
                             [(ss ! j, fst (resolve_all ss st) ! j)]\<rparr>)
       \<and> (\<forall>i < j. re_search phone_pattern (ss ! i) = None
                   \<and> map_of (contacts st) (ss ! i) = None
                   \<and> ss ! i \<notin> set (take i ss) \<longrightarrow>
             phone_number (fst (resolve_all ss st) ! i) =
               ''unknown_'' @ str_nat (length (contacts (snd (resolve_all (take i ss) st))) + 1)
             \<and> length (contacts (snd (resolve_all (take i ss) st))) + 1
                 < length (contacts (snd (resolve_all (take j ss) st))) + 1
             \<and> contact_id (fst (resolve_all ss st) ! i)
                 \<noteq> contact_id (fst (resolve_all ss st) ! j))
       \<and> (\<forall>k. j \<le> k \<and> k < length ss \<and> ss ! k = ss ! j \<longrightarrow>
             fst (resolve_all ss st) ! k = fst (resolve_all ss st) ! j)
       \<and> (\<forall>s. re_search phone_pattern s = None \<longrightarrow>
             phone_number (fst (get_contact_info s init_state)) = ''unknown_1'')"
proof -
  have call: "get_contact_info (ss ! n) (snd (resolve_all (take n ss) st)) =
           (\<lparr>display_name = ss ! n,
             phone_number =
               ''unknown_'' @ str_nat (length (contacts (snd (resolve_all (take n ss) st))) + 1),
             contact_id =
               ''unknown_'' @ str_nat (length (contacts (snd (resolve_all (take n ss) st))) + 1)\<rparr>,
            (snd (resolve_all (take n ss) st))
              \<lparr>contacts := contacts (snd (resolve_all (take n ss) st)) @
                 [(ss ! n,
                   \<lparr>display_name = ss ! n,
                    phone_number =
                      ''unknown_'' @
                      str_nat (length (contacts (snd (resolve_all (take n ss) st))) + 1),
                    contact_id =
                      ''unknown_'' @
                      str_nat (length (contacts (snd (resolve_all (take n ss) st))) + 1)\<rparr>)]\<rparr>)"
    if "re_search phone_pattern (ss ! n) = None" and "map_of (contacts st) (ss ! n) = None"
      and "ss ! n \<notin> set (take n ss)" for n
    by (rule get_contact_info_unmatched [OF that(1) resolve_all_absent [OF that(2,3)]])
  have nth: "fst (resolve_all ss st) ! n =
           \<lparr>display_name = ss ! n,
             phone_number =
               ''unknown_'' @ str_nat (length (contacts (snd (resolve_all (take n ss) st))) + 1),
             contact_id =
               ''unknown_'' @ str_nat (length (contacts (snd (resolve_all (take n ss) st))) + 1)\<rparr>"
    if "n < length ss" and "re_search phone_pattern (ss ! n) = None"
      and "map_of (contacts st) (ss ! n) = None" and "ss ! n \<notin> set (take n ss)" for n
    unfolding resolve_all_nth [OF that(1)] call [OF that(2,3,4)] fst_conv ..
  have a: "fst (resolve_all ss st) ! j =
           \<lparr>display_name = ss ! j,
            phone_number =
              ''unknown_'' @ str_nat (length (contacts (snd (resolve_all (take j ss) st))) + 1),
            contact_id =
              ''unknown_'' @ str_nat (length (contacts (snd (resolve_all (take j ss) st))) + 1)\<rparr>"
    by (rule nth [OF assms])
  have b: "get_contact_info (ss ! j) (snd (resolve_all (take j ss) st)) =
           (fst (resolve_all ss st) ! j,
            (snd (resolve_all (take j ss) st))
              \<lparr>contacts := contacts (snd (resolve_all (take j ss) st)) @
                             [(ss ! j, fst (resolve_all ss st) ! j)]\<rparr>)"
    unfolding a by (rule call [OF assms(2,3,4)])
  have c: "phone_number (fst (resolve_all ss st) ! i) =
               ''unknown_'' @ str_nat (length (contacts (snd (resolve_all (take i ss) st))) + 1)
             \<and> length (contacts (snd (resolve_all (take i ss) st))) + 1
                 < length (contacts (snd (resolve_all (take j ss) st))) + 1
             \<and> contact_id (fst (resolve_all ss st) ! i)
                 \<noteq> contact_id (fst (resolve_all ss st) ! j)"
    if ij: "i < j" and m: "re_search phone_pattern (ss ! i) = None"
      and f: "map_of (contacts st) (ss ! i) = None" and n: "ss ! i \<notin> set (take i ss)" for i
  proof -
    have il: "i < length ss" using ij assms(1) by simp
    have jl: "j \<le> length ss" using assms(1) by simp
    have lt: "length (contacts (snd (resolve_all (take i ss) st)))
                < length (contacts (snd (resolve_all (take j ss) st)))"
      by (rule resolve_all_count_grows [OF ij jl resolve_all_absent [OF f n]])
    have ne: "str_nat (length (contacts (snd (resolve_all (take i ss) st))) + 1)
                \<noteq> str_nat (length (contacts (snd (resolve_all (take j ss) st))) + 1)"
      using lt str_nat_inj by fastforce
    show ?thesis
      unfolding nth [OF il m f n] a using lt ne by simp
  qed
  have d: "fst (resolve_all ss st) ! k = fst (resolve_all ss st) ! j"
    if "j \<le> k \<and> k < length ss \<and> ss ! k = ss ! j" for k
    using that by (intro resolve_all_repeat) simp_all
  have e: "phone_number (fst (get_contact_info s init_state)) = ''unknown_1''"
    if "re_search phone_pattern s = None" for s
  proof -
    have "map_of (contacts init_state) s = None" by (simp add: init_state_def)
    from get_contact_info_unmatched [OF that this] show ?thesis
      by (simp add: init_state_def digit_char_def)
  qed
  show ?thesis
    using a b c d e by blast
qed

theorem placeholder_ids_positional_witness:
  "fst (resolve_all [''Alice'', ''Bob (+1 5550100)'', ''Carol'', ''Alice''] init_state) ! 2 =
     \<lparr>display_name = ''Carol'', phone_number = ''unknown_3'', contact_id = ''unknown_3''\<rparr>
   \<and> phone_number
       (fst (resolve_all [''Alice'', ''Bob (+1 5550100)'', ''Carol'', ''Alice''] init_state) ! 0)
     = ''unknown_1''"
proof -
  let ?ss = "[''Alice'', ''Bob (+1 5550100)'', ''Carol'', ''Alice'']"
  have h1: "2 < length ?ss" by simp
  have h2: "re_search phone_pattern (?ss ! 2) = None"
    by (simp add: phone_pattern_def)
  have h3: "map_of (contacts init_state) (?ss ! 2) = None"
    by (simp add: init_state_def)
  have h4: "?ss ! 2 \<notin> set (take 2 ?ss)" by simp
  have i1: "re_search phone_pattern (?ss ! 0) = None"
    by (simp add: phone_pattern_def)
  have i2: "map_of (contacts init_state) (?ss ! 0) = None"
    by (simp add: init_state_def)
  have i3: "?ss ! 0 \<notin> set (take 0 ?ss)" by simp
  have a0: "map_of (contacts init_state) ''Alice'' = None"
    and b0: "map_of (contacts init_state) ''Bob (+1 5550100)'' = None"
    by (simp_all add: init_state_def)
  have tk: "take 2 ?ss = [''Alice'', ''Bob (+1 5550100)'']" by simp
  have two: "snd (resolve_all [x, y] s0) = snd (get_contact_info y (snd (get_contact_info x s0)))"
    for x y s0
    unfolding resolve_all_Cons snd_conv resolve_all.simps(1) ..
  have n2: "length (contacts (snd (resolve_all (take 2 ?ss) init_state))) = 2"
  proof -
    have "length (contacts (snd (get_contact_info ''Alice'' init_state))) = Suc 0"
      using get_contact_info_count_fresh [OF a0] by (simp add: init_state_def)
    moreover have "map_of (contacts (snd (get_contact_info ''Alice'' init_state)))
                     ''Bob (+1 5550100)'' = None"
      by (rule get_contact_info_other_absent [OF b0]) simp
    ultimately have "length (contacts (snd (get_contact_info ''Bob (+1 5550100)''
                        (snd (get_contact_info ''Alice'' init_state))))) = Suc (Suc 0)"
      using get_contact_info_count_fresh [of "snd (get_contact_info ''Alice'' init_state)"
              "''Bob (+1 5550100)''"]
      by (simp only:)
    then show ?thesis
      unfolding tk two by (simp only: numeral_2_eq_2)
  qed
  have n0: "length (contacts (snd (resolve_all (take 0 ?ss) init_state))) = 0"
    by (simp add: init_state_def)
  note t = placeholder_ids_positional [OF h1 h2 h3 h4]
  from t have a: "fst (resolve_all ?ss init_state) ! 2 =
      \<lparr>display_name = ?ss ! 2,
       phone_number = ''unknown_'' @
         str_nat (length (contacts (snd (resolve_all (take 2 ?ss) init_state))) + 1),
       contact_id = ''unknown_'' @
         str_nat (length (contacts (snd (resolve_all (take 2 ?ss) init_state))) + 1)\<rparr>"
    by (rule conjunct1)
  have z: "(0::nat) < 2" by simp
  from t i1 i2 i3 z have b: "phone_number (fst (resolve_all ?ss init_state) ! 0) =
      ''unknown_'' @ str_nat (length (contacts (snd (resolve_all (take 0 ?ss) init_state))) + 1)"
    by blast
  have s3: "''unknown_'' @ str_nat (2 + 1) = ''unknown_3''"
    and s1: "''unknown_'' @ str_nat (0 + 1) = ''unknown_1''"
    by (simp_all add: digit_char_def)
  have c2: "?ss ! 2 = ''Carol''" by simp
  show ?thesis
    using a b unfolding n2 n0 s3 s1 c2 by (rule conjI)
qed

section \<open>Matching the phone pattern\<close>


lemma digit_not_plus: "is_digit c \<Longrightarrow> c \<noteq> CHR ''+''"
  by (auto simp: is_digit_def)













section \<open>Removing characters and the parenthesized number\<close>





section \<open>Extraction of the phone number\<close>










section \<open>Frame properties of the message processor\<close>

lemma log_info_fields [simp]:
  "contacts (log_info m st) = contacts st"
  "message_history (log_info m st) = message_history st"
  "chat_groups (log_info m st) = chat_groups st"
  "active_chats (log_info m st) = active_chats st"
  "sent (log_info m st) = sent st"
  "files (log_info m st) = files st"
  "log (log_info m st) = log st @ [Info m]"
  by (simp_all add: log_info_def)

lemma log_error_fields [simp]:
  "contacts (log_error m st) = contacts st"
  "message_history (log_error m st) = message_history st"
  "chat_groups (log_error m st) = chat_groups st"
  "active_chats (log_error m st) = active_chats st"
  "sent (log_error m st) = sent st"
  "files (log_error m st) = files st"
  "log (log_error m st) = log st @ [Error m]"
  by (simp_all add: log_error_def)

lemma get_contact_info_frame:
  "message_history (snd (get_contact_info s st)) = message_history st"
  "chat_groups (snd (get_contact_info s st)) = chat_groups st"
  "active_chats (snd (get_contact_info s st)) = active_chats st"
  "sent (snd (get_contact_info s st)) = sent st"
  "log (snd (get_contact_info s st)) = log st"
  "files (snd (get_contact_info s st)) = files st"
  by (cases "map_of (contacts st) s"; use get_contact_info_miss [of st s] in
      \<open>auto simp: get_contact_info_hit\<close>)+

lemma download_body_frame:
  "contacts (snd (download_body cfg ev u c d t ts st)) = contacts st"
  "message_history (snd (download_body cfg ev u c d t ts st)) = message_history st"
  "chat_groups (snd (download_body cfg ev u c d t ts st)) = chat_groups st"
  "active_chats (snd (download_body cfg ev u c d t ts st)) = active_chats st"
  by (simp_all add: download_body_def Let_def create_file_def
        split: fetch_result.split write_result.split call_result.split)

lemma download_and_send_media_returns:
  "fst (download_and_send_media cfg ev u c d t ts st) = None"
  by (simp add: download_and_send_media_def split: prod.split option.split)

lemma download_and_send_media_frame:
  "contacts (snd (download_and_send_media cfg ev u c d t ts st)) = contacts st"
  "message_history (snd (download_and_send_media cfg ev u c d t ts st)) = message_history st"
  "chat_groups (snd (download_and_send_media cfg ev u c d t ts st)) = chat_groups st"
  "active_chats (snd (download_and_send_media cfg ev u c d t ts st)) = active_chats st"
  using download_body_frame [of cfg ev u c d t ts st]
  by (auto simp: download_and_send_media_def split: prod.split option.split)

lemma case_returned:
  "fst p = None \<Longrightarrow> (case p of (None, s) \<Rightarrow> s | (Some e, s) \<Rightarrow> f e s) = snd p"
  by (cases p) auto

lemma media_part_eq:
  "media_part cfg ev md c st1 =
     (if declares_media md then
        snd (download_and_send_media cfg ev (get_default (ob_media_url md) '''') c
               (direction_label md) (get_default (ob_chat md) ''Unknown Chat'')
               (get_default (ob_timestamp md) (now_iso ev)) st1)
      else st1)"
  unfolding media_part_def
  by (simp only: case_returned [OF download_and_send_media_returns])

lemma media_part_frame:
  "contacts (media_part cfg ev md c st1) = contacts st1"
  "message_history (media_part cfg ev md c st1) = message_history st1"
  "chat_groups (media_part cfg ev md c st1) = chat_groups st1"
  "active_chats (media_part cfg ev md c st1) = active_chats st1"
  by (simp_all add: media_part_eq download_and_send_media_frame)

lemma map_of_dict_append:
  "map_of (dict_append d k v) k' =
     (if k' = k then Some ((case map_of d k of Some l \<Rightarrow> l | None \<Rightarrow> []) @ [v])
      else map_of d k')"
  by (auto simp: dict_append_def Let_def map_of_dict_set_same map_of_dict_set_other)

lemma record_message_fields:
  "contacts (record_message ev md c st2) = contacts st2"
  "sent (record_message ev md c st2) = sent st2"
  "files (record_message ev md c st2) = files st2"
  "log (record_message ev md c st2) = log st2"
  "active_chats (record_message ev md c st2) =
     (if contact_id c \<in> set (active_chats st2) then active_chats st2
      else active_chats st2 @ [contact_id c])"
  "message_history (record_message ev md c st2) =
     dict_append (message_history st2) (contact_id c) (make_record ev md)"
  by (simp_all add: record_message_def)

lemma text_part_fields:
  "contacts (text_part cfg ev md c st2) = contacts st2"
  "files (text_part cfg ev md c st2) = files st2"
  "active_chats (text_part cfg ev md c st2) =
     (if get_default (ob_text md) '''' \<noteq> '''' \<and> contact_id c \<notin> set (active_chats st2)
      then active_chats st2 @ [contact_id c] else active_chats st2)"
  "message_history (text_part cfg ev md c st2) =
     (if get_default (ob_text md) '''' \<noteq> ''''
      then dict_append (message_history st2) (contact_id c) (make_record ev md)
      else message_history st2)"
  "sent (text_part cfg ev md c st2) =
     (if get_default (ob_text md) '''' \<noteq> '''' \<and> send_message_result ev = Returns
      then sent st2 @ [Sent_Message (telegram_chat_id cfg) (format_message ev md c)]
      else sent st2)"
  unfolding text_part_def Let_def
  by (simp_all add: record_message_fields split: call_result.split)

lemma process_message_parts:
  "process_message cfg ev md st =
     (None, text_part cfg ev md (fst (get_contact_info (get_default (ob_sender md) ''Unknown'') st))
              (media_part cfg ev md
                 (fst (get_contact_info (get_default (ob_sender md) ''Unknown'') st))
                 (snd (get_contact_info (get_default (ob_sender md) ''Unknown'') st))))"
proof -
  obtain c st1 where g: "get_contact_info (get_default (ob_sender md) ''Unknown'') st = (c, st1)"
    by (cases "get_contact_info (get_default (ob_sender md) ''Unknown'') st")
  show ?thesis
  proof (cases "get_default (ob_text md) '''' = ''''")
    case True
    then show ?thesis
      unfolding process_message_def text_part_def media_part_def direction_label_def Let_def g
      by (simp only: prod.case fst_conv snd_conv if_True if_False simp_thms)
  next
    case False
    then show ?thesis
      unfolding process_message_def text_part_def media_part_def record_message_def
        format_message_def direction_label_def Let_def g
      by (cases "send_message_result ev")
         (simp_all only: prod.case fst_conv snd_conv if_True if_False simp_thms
            call_result.case)
  qed
qed

lemma process_message_returns: "fst (process_message cfg ev md st) = None"
  by (simp only: process_message_parts fst_conv)

lemma process_message_contacts:
  "contacts (snd (process_message cfg ev md st)) =
     contacts (snd (get_contact_info (get_default (ob_sender md) ''Unknown'') st))"
  by (simp only: process_message_parts snd_conv text_part_fields media_part_frame)

lemma process_message_history:
  "history_of k (snd (process_message cfg ev md st)) =
     history_of k st @
       (if get_default (ob_text md) '''' \<noteq> '''' \<and>
           k = contact_id (fst (get_contact_info (get_default (ob_sender md) ''Unknown'') st))
        then [make_record ev md] else [])"
  unfolding history_of_def
  by (simp add: process_message_parts text_part_fields media_part_frame
        get_contact_info_frame map_of_dict_append split: option.split)

lemma process_message_active:
  "active_chats (snd (process_message cfg ev md st)) =
     (if get_default (ob_text md) '''' \<noteq> '''' \<and>
         contact_id (fst (get_contact_info (get_default (ob_sender md) ''Unknown'') st))
           \<notin> set (active_chats st)
      then active_chats st @
             [contact_id (fst (get_contact_info (get_default (ob_sender md) ''Unknown'') st))]
      else active_chats st)"
  by (simp only: process_message_parts snd_conv text_part_fields media_part_frame
        get_contact_info_frame)

section \<open>Observations without text and without media\<close>

text \<open>
  Claim C10. An observation whose text is empty or missing and which declares no media
  makes \<open>process_message\<close> return without an exception and leave the state exactly as
  sender resolution alone leaves it: nothing is sent, nothing is logged, the message
  history, the chat groups and the active-chat list are unchanged. The sender is
  still resolved: a sender string seen for the first time is stored with its new
  contact, so the contact count, from which the next placeholder number is taken,
  grows by one.
\<close>

theorem empty_observation_only_resolves:
  assumes "ob_text md = None \<or> ob_text md = Some ''''"
    and "\<not> declares_media md"
  shows "process_message cfg ev md st =
           (None, snd (get_contact_info (get_default (ob_sender md) ''Unknown'') st))
         \<and> sent (snd (process_message cfg ev md st)) = sent st
         \<and> log (snd (process_message cfg ev md st)) = log st
         \<and> message_history (snd (process_message cfg ev md st)) = message_history st
         \<and> chat_groups (snd (process_message cfg ev md st)) = chat_groups st
         \<and> active_chats (snd (process_message cfg ev md st)) = active_chats st
         \<and> (map_of (contacts st) (get_default (ob_sender md) ''Unknown'') = None \<longrightarrow>
              length (contacts (snd (process_message cfg ev md st))) = length (contacts st) + 1
              \<and> map_of (contacts (snd (process_message cfg ev md st)))
                    (get_default (ob_sender md) ''Unknown'')
                  = Some (fst (get_contact_info (get_default (ob_sender md) ''Unknown'') st)))"
proof -
  let ?s = "get_default (ob_sender md) ''Unknown''"
  have t: "get_default (ob_text md) '''' = ''''"
    using assms(1) by (auto simp: get_default_def)
  have p: "process_message cfg ev md st = (None, snd (get_contact_info ?s st))"
    using t assms(2) by (simp add: process_message_parts text_part_def media_part_def)
  have n: "length (contacts (snd (get_contact_info ?s st))) = length (contacts st) + 1"
    if "map_of (contacts st) ?s = None"
    using get_contact_info_miss [OF that] by (auto simp: length_dict_set_fresh that)
  show ?thesis
    unfolding p using n
    by (simp add: get_contact_info_frame get_contact_info_caches)
qed

theorem empty_observation_only_resolves_witness:
  "process_message example_config example_env (text_observation ''m1'' ''Ghost'' '''') init_state
     = (None, snd (get_contact_info ''Ghost'' init_state))
   \<and> length (contacts (snd (process_message example_config example_env
                 (text_observation ''m1'' ''Ghost'' '''') init_state))) = 1"
proof -
  let ?md = "text_observation ''m1'' ''Ghost'' ''''"
  have h1: "ob_text ?md = None \<or> ob_text ?md = Some ''''"
    by (simp add: text_observation_def)
  have h2: "\<not> declares_media ?md"
    by (simp add: declares_media_def get_default_def text_observation_def)
  have s: "get_default (ob_sender ?md) ''Unknown'' = ''Ghost''"
    by (simp add: get_default_def text_observation_def)
  have m: "map_of (contacts init_state) ''Ghost'' = None" by (simp add: init_state_def)
  have l: "length (contacts init_state) = 0" by (simp add: init_state_def)
  note t = empty_observation_only_resolves
             [OF h1 h2, of example_config example_env init_state, unfolded s]
  from t have a: "process_message example_config example_env ?md init_state
      = (None, snd (get_contact_info ''Ghost'' init_state))"
    by (rule conjunct1)
  from t m have b: "length (contacts (snd (process_message example_config example_env ?md
      init_state))) = length (contacts init_state) + 1"
    by blast
  show ?thesis
    using a b l by (simp only: One_nat_def add_0 simp_thms)
qed

section \<open>Message history\<close>

text \<open>
  Claim C4. The history of a contact only grows at its end, in processing order.
  Every call of \<open>process_message\<close> leaves the history of every contact id as it was,
  except that an observation with non-empty text appends its record to the history of
  the resolved contact. So two observations with non-empty text from the same sender,
  processed one after the other, end that contact's history with their two records in
  that order, and processing one observation twice appends its record twice: nothing
  is dropped because of an equal message id.
\<close>

theorem history_append_only:
  assumes "get_default (ob_text o1) '''' \<noteq> ''''"
    and "get_default (ob_text o2) '''' \<noteq> ''''"
    and "get_default (ob_sender o1) ''Unknown'' = get_default (ob_sender o2) ''Unknown''"
  shows "history_of (contact_id (fst (get_contact_info (get_default (ob_sender o1) ''Unknown'') st)))
           (snd (process_message cfg e2 o2 (snd (process_message cfg e1 o1 st))))
         = history_of (contact_id (fst (get_contact_info (get_default (ob_sender o1) ''Unknown'') st))) st
             @ [make_record e1 o1, make_record e2 o2]
       \<and> history_of (contact_id (fst (get_contact_info (get_default (ob_sender o1) ''Unknown'') st)))
           (snd (process_message cfg e2 o1 (snd (process_message cfg e1 o1 st))))
         = history_of (contact_id (fst (get_contact_info (get_default (ob_sender o1) ''Unknown'') st))) st
             @ [make_record e1 o1, make_record e2 o1]
       \<and> (\<forall>k md ev. \<exists>new. history_of k (snd (process_message cfg ev md st)) = history_of k st @ new)"
proof -
  let ?s = "get_default (ob_sender o1) ''Unknown''"
  let ?st1 = "snd (process_message cfg e1 o1 st)"
  have c: "map_of (contacts ?st1) ?s = Some (fst (get_contact_info ?s st))"
    by (simp add: process_message_contacts get_contact_info_caches)
  have same: "fst (get_contact_info ?s ?st1) = fst (get_contact_info ?s st)"
    using get_contact_info_hit [OF c] by simp
  show ?thesis
    using assms same
    by (simp add: process_message_history)
qed

theorem history_append_only_witness:
  "history_of ''unknown_1''
     (snd (process_message example_config example_env (text_observation ''m2'' ''Bob'' ''b'')
        (snd (process_message example_config example_env (text_observation ''m1'' ''Bob'' ''a'')
                init_state))))
   = [make_record example_env (text_observation ''m1'' ''Bob'' ''a''),
      make_record example_env (text_observation ''m2'' ''Bob'' ''b'')]
   \<and> map msg_id (history_of ''unknown_1''
        (snd (process_message example_config example_env (text_observation ''m1'' ''Bob'' ''a'')
           (snd (process_message example_config example_env (text_observation ''m1'' ''Bob'' ''a'')
                   init_state)))))
     = [''m1'', ''m1'']"
proof -
  let ?o1 = "text_observation ''m1'' ''Bob'' ''a''"
  let ?o2 = "text_observation ''m2'' ''Bob'' ''b''"
  have t1: "get_default (ob_text ?o1) '''' \<noteq> ''''"
    and t2: "get_default (ob_text ?o2) '''' \<noteq> ''''"
    and ss: "get_default (ob_sender ?o1) ''Unknown'' = get_default (ob_sender ?o2) ''Unknown''"
    and s1: "get_default (ob_sender ?o1) ''Unknown'' = ''Bob''"
    by (simp_all add: get_default_def text_observation_def)
  have g: "contact_id (fst (get_contact_info ''Bob'' init_state)) = ''unknown_1''"
    by (simp add: get_contact_info_def init_state_def phone_pattern_def Let_def digit_char_def)
  have h: "history_of ''unknown_1'' init_state = []"
    by (simp add: history_of_def init_state_def)
  have i: "msg_id (make_record example_env ?o1) = ''m1''"
    by (simp add: make_record_def get_default_def text_observation_def)
  note t = history_append_only [OF t1 t2 ss, of init_state example_config example_env
             example_env, unfolded s1 g h]
  from t show ?thesis
    by (simp add: i)
qed

section \<open>The active-chat list\<close>

lemma run_snoc: "run cfg (xs @ [(ev, md)]) st = snd (process_message cfg ev md (run cfg xs st))"
  by (induction xs arbitrary: st) auto

lemma run_active_distinct: "distinct (active_chats st) \<Longrightarrow> distinct (active_chats (run cfg xs st))"
proof (induction xs arbitrary: st)
  case Nil
  then show ?case by simp
next
  case (Cons x xs)
  obtain ev md where x: "x = (ev, md)" by (cases x)
  have "distinct (active_chats (snd (process_message cfg ev md st)))"
    using Cons.prems by (simp add: process_message_active)
  from Cons.IH [OF this] show ?case by (simp add: x)
qed

lemma run_active_prefix: "\<exists>new. active_chats (run cfg xs st) = active_chats st @ new"
proof (induction xs arbitrary: st)
  case Nil
  then show ?case by simp
next
  case (Cons x xs)
  obtain ev md where x: "x = (ev, md)" by (cases x)
  have "\<exists>n1. active_chats (snd (process_message cfg ev md st)) = active_chats st @ n1"
    by (simp add: process_message_active)
  then obtain n1 where a: "active_chats (snd (process_message cfg ev md st)) = active_chats st @ n1"
    by blast
  obtain n2 where b: "active_chats (run cfg xs (snd (process_message cfg ev md st)))
      = active_chats (snd (process_message cfg ev md st)) @ n2"
    using Cons.IH by blast
  show ?case by (simp add: x a b)
qed

text \<open>
  Claim C5. Every call of \<open>process_message\<close> keeps the active-chat list free of
  duplicates and keeps the old list as the beginning of the new one: the list is left
  as it is, or the id of the resolved contact is appended at its end, and the latter
  happens exactly when the observation has non-empty text and the id is not yet in
  the list. So an id enters the list at the first processed message with non-empty
  text of its contact, and no entry is removed or moved afterwards; the same holds
  for every run of the processor from the initial state.
\<close>

theorem active_chats_invariant:
  assumes "distinct (active_chats st)"
  shows "distinct (active_chats (snd (process_message cfg ev md st)))
       \<and> active_chats (snd (process_message cfg ev md st)) =
           (if get_default (ob_text md) '''' \<noteq> '''' \<and>
               contact_id (fst (get_contact_info (get_default (ob_sender md) ''Unknown'') st))
                 \<notin> set (active_chats st)
            then active_chats st @
                   [contact_id (fst (get_contact_info (get_default (ob_sender md) ''Unknown'') st))]
            else active_chats st)
       \<and> (get_default (ob_text md) '''' \<noteq> '''' \<longrightarrow>
            contact_id (fst (get_contact_info (get_default (ob_sender md) ''Unknown'') st))
              \<in> set (active_chats (snd (process_message cfg ev md st))))
       \<and> distinct (active_chats (run cfg xs st))
       \<and> (\<exists>new. active_chats (run cfg xs st) = active_chats st @ new)
       \<and> distinct (active_chats (run cfg xs init_state))"
proof -
  have d0: "distinct (active_chats init_state)" by (simp add: init_state_def)
  show ?thesis
    using assms run_active_distinct [OF assms, of cfg xs] run_active_distinct [OF d0, of cfg xs]
      run_active_prefix [of cfg xs st]
    by (simp add: process_message_active)
qed

theorem active_chats_invariant_witness:
  "active_chats
     (run example_config
        [(example_env, text_observation ''m1'' ''Bob'' ''a''),
         (example_env, text_observation ''m2'' ''Eve'' ''b''),
         (example_env, text_observation ''m3'' ''Bob'' ''c'')] init_state)
   = [''unknown_1'', ''unknown_2'']"
proof -
  have d0: "distinct (active_chats init_state)" by (simp add: init_state_def)
  have a0: "active_chats init_state = []" by (simp add: init_state_def)
  let ?o1 = "text_observation ''m1'' ''Bob'' ''a''"
  let ?o2 = "text_observation ''m2'' ''Eve'' ''b''"
  let ?o3 = "text_observation ''m3'' ''Bob'' ''c''"
  let ?st1 = "snd (process_message example_config example_env ?o1 init_state)"
  let ?st2 = "snd (process_message example_config example_env ?o2 ?st1)"
  have f: "get_default (ob_text ?o1) '''' \<noteq> ''''" "get_default (ob_text ?o2) '''' \<noteq> ''''"
    "get_default (ob_text ?o3) '''' \<noteq> ''''"
    "get_default (ob_sender ?o1) ''Unknown'' = ''Bob''"
    "get_default (ob_sender ?o2) ''Unknown'' = ''Eve''"
    "get_default (ob_sender ?o3) ''Unknown'' = ''Bob''"
    by (simp_all add: get_default_def text_observation_def)
  have c0: "contacts init_state = []" by (simp add: init_state_def)
  have g1: "get_contact_info ''Bob'' init_state =
      (\<lparr>display_name = ''Bob'', phone_number = ''unknown_1'', contact_id = ''unknown_1''\<rparr>,
       init_state\<lparr>contacts := [(''Bob'',
         \<lparr>display_name = ''Bob'', phone_number = ''unknown_1'', contact_id = ''unknown_1''\<rparr>)]\<rparr>)"
    by (simp add: get_contact_info_def c0 phone_pattern_def Let_def digit_char_def)
  have c1: "contacts ?st1 = [(''Bob'',
         \<lparr>display_name = ''Bob'', phone_number = ''unknown_1'', contact_id = ''unknown_1''\<rparr>)]"
    by (simp add: process_message_contacts f g1)
  have g2: "fst (get_contact_info ''Eve'' ?st1) =
      \<lparr>display_name = ''Eve'', phone_number = ''unknown_2'', contact_id = ''unknown_2''\<rparr>"
    by (simp add: get_contact_info_def c1 phone_pattern_def Let_def digit_char_def)
  have c2: "map_of (contacts ?st2) ''Bob'' =
      Some \<lparr>display_name = ''Bob'', phone_number = ''unknown_1'', contact_id = ''unknown_1''\<rparr>"
  proof -
    have m1: "map_of (contacts ?st1) ''Bob'' =
        Some \<lparr>display_name = ''Bob'', phone_number = ''unknown_1'', contact_id = ''unknown_1''\<rparr>"
      by (simp add: c1)
    show ?thesis
      using get_contact_info_keeps [OF m1, of "''Eve''"]
      by (simp add: process_message_contacts f)
  qed
  have g3: "fst (get_contact_info ''Bob'' ?st2) =
      \<lparr>display_name = ''Bob'', phone_number = ''unknown_1'', contact_id = ''unknown_1''\<rparr>"
    by (simp add: get_contact_info_hit [OF c2])
  have s1: "active_chats ?st1 = [''unknown_1'']"
    using active_chats_invariant [OF d0, of example_config example_env ?o1 "[]"]
    by (simp add: f g1 a0)
  have s2: "active_chats ?st2 = [''unknown_1'', ''unknown_2'']"
    using process_message_active [of example_config example_env ?o2 ?st1]
    by (simp add: f g2 s1)
  have s3: "active_chats (snd (process_message example_config example_env ?o3 ?st2))
      = [''unknown_1'', ''unknown_2'']"
    using process_message_active [of example_config example_env ?o3 ?st2]
    by (simp add: f g3 s2)
  show ?thesis
    by (simp add: s3)
qed

section \<open>Failures of the media pipeline\<close>

lemma make_record_ignores_media_flag:
  "make_record ev (md\<lparr>ob_has_media := x\<rparr>) = make_record ev md"
  by (simp add: make_record_def)

lemma direction_label_ignores_media_flag:
  "direction_label (md\<lparr>ob_has_media := x\<rparr>) = direction_label md"
  by (simp add: direction_label_def)

lemma format_message_ignores_media_flag:
  "format_message ev (md\<lparr>ob_has_media := x\<rparr>) c = format_message ev md c"
  unfolding format_message_def direction_label_ignores_media_flag
  by simp

lemma record_message_ignores_media_flag:
  "record_message ev (md\<lparr>ob_has_media := x\<rparr>) c st2 = record_message ev md c st2"
  unfolding record_message_def make_record_ignores_media_flag format_message_ignores_media_flag
  by (rule refl)

lemma text_part_ignores_media_flag:
  "text_part cfg ev (md\<lparr>ob_has_media := x\<rparr>) c st2 = text_part cfg ev md c st2"
  unfolding text_part_def record_message_ignores_media_flag format_message_ignores_media_flag
    direction_label_ignores_media_flag
  by (simp add: Let_def split: call_result.split)

lemma media_part_without_media:
  "media_part cfg ev (md\<lparr>ob_has_media := Some False\<rparr>) c st1 = st1"
  by (simp add: media_part_def declares_media_def get_default_def)

lemma process_message_without_media:
  "snd (process_message cfg ev (md\<lparr>ob_has_media := Some False\<rparr>) st) =
     text_part cfg ev md (fst (get_contact_info (get_default (ob_sender md) ''Unknown'') st))
       (snd (get_contact_info (get_default (ob_sender md) ''Unknown'') st))"
  by (simp add: process_message_parts text_part_ignores_media_flag media_part_without_media)

lemma text_part_log: "\<exists>new. log (text_part cfg ev md c st2) = log st2 @ new"
  by (simp add: text_part_def Let_def record_message_fields split: call_result.split)

lemma media_part_bad_status:
  assumes "declares_media md"
    and "http_get ev (get_default (ob_media_url md) '''') = Fetch_Status code"
    and "code \<noteq> 200"
  shows "media_part cfg ev md c st1 =
           log_error (''Failed to download media: HTTP '' @ str_nat code) st1"
  using assms
  by (simp add: media_part_eq download_and_send_media_def download_body_def)

lemma media_part_raised:
  assumes "declares_media md"
    and "download_body cfg ev (get_default (ob_media_url md) '''') c (direction_label md)
           (get_default (ob_chat md) ''Unknown Chat'')
           (get_default (ob_timestamp md) (now_iso ev)) st1 = (Some e, s)"
  shows "media_part cfg ev md c st1 =
           log_error (''Error downloading and sending media: '' @ exn_str e) s"
  using assms
  by (simp add: media_part_eq download_and_send_media_def)

lemma exn_str_External: "exn_str (External m) = m"
  by (simp add: exn_str_def)

lemma create_file_fields:
  "sent (create_file n st) = sent st"
  "log (create_file n st) = log st"
  by (simp_all add: create_file_def)

lemma download_body_raises:
  "http_get ev u = Fetch_Raises m \<Longrightarrow>
     download_body cfg ev u c d t ts st = (Some (External m), st)"
  "http_get ev u = Fetch_Status 200 \<Longrightarrow> write_file ev = Open_Raises m \<Longrightarrow>
     download_body cfg ev u c d t ts st = (Some (External m), st)"
  "http_get ev u = Fetch_Status 200 \<Longrightarrow> write_file ev = Write_Raises m \<Longrightarrow>
     download_body cfg ev u c d t ts st =
       (Some (External m),
        create_file (''temp_media_'' @ str_int (now_epoch ev) @ splitext_ext u) st)"
  "http_get ev u = Fetch_Status 200 \<Longrightarrow> write_file ev = Written \<Longrightarrow>
   send_file_result ev = Raises m \<Longrightarrow>
     download_body cfg ev u c d t ts st =
       (Some (External m),
        create_file (''temp_media_'' @ str_int (now_epoch ev) @ splitext_ext u) st)"
  by (simp_all add: download_body_def Let_def)

lemma failed_media_sent_and_log:
  assumes "media_part cfg ev md c st1 = log_error msg s" and "sent s = sent st1"
  shows "sent (text_part cfg ev md c (media_part cfg ev md c st1))
           = sent (text_part cfg ev md c st1)
         \<and> Error msg \<in> set (log (text_part cfg ev md c (media_part cfg ev md c st1)))"
proof -
  obtain new where l: "log (text_part cfg ev md c (media_part cfg ev md c st1))
      = log (media_part cfg ev md c st1) @ new"
    using text_part_log by blast
  show ?thesis
    unfolding l unfolding assms(1) using assms(2) by (simp add: text_part_fields)
qed

lemma failed_media_files:
  assumes "media_part cfg ev md c st1 = log_error msg s" and "files s = files st1"
  shows "files (text_part cfg ev md c (media_part cfg ev md c st1))
           = files (text_part cfg ev md c st1)"
  unfolding assms(1) using assms(2) by (simp add: text_part_fields)

text \<open>
  Claim C7. \<open>process_message\<close> never raises, whatever the media pipeline does, and the
  contacts, the message history, the chat groups and the active-chat list it leaves
  are those that the same observation without its media flag leaves. For an
  observation that declares media, every way in which the pipeline fails is written
  to the log and leaves what was sent as for the observation without media, so the
  text is forwarded all the same: a fetch that answers with a status other than 200
  (every non-2xx status is one), a fetch that raises, a transient file that cannot be
  opened or written, and a \<open>send_file\<close> that raises. Where no transient file has been
  created (bad status, raising fetch, file not opened) the files on disk are as for
  the observation without media as well. The text part on its own sends the formatted
  message whenever the text is non-empty and \<open>send_message\<close> returns.
\<close>

theorem media_failure_contained:
  "fst (process_message cfg ev md st) = None
   \<and> contacts (snd (process_message cfg ev md st))
       = contacts (snd (process_message cfg ev (md\<lparr>ob_has_media := Some False\<rparr>) st))
   \<and> message_history (snd (process_message cfg ev md st))
       = message_history (snd (process_message cfg ev (md\<lparr>ob_has_media := Some False\<rparr>) st))
   \<and> chat_groups (snd (process_message cfg ev md st))
       = chat_groups (snd (process_message cfg ev (md\<lparr>ob_has_media := Some False\<rparr>) st))
   \<and> active_chats (snd (process_message cfg ev md st))
       = active_chats (snd (process_message cfg ev (md\<lparr>ob_has_media := Some False\<rparr>) st))
   \<and> (declares_media md \<and>
       http_get ev (get_default (ob_media_url md) '''') = Fetch_Status code \<and> code \<noteq> 200 \<longrightarrow>
         sent (snd (process_message cfg ev md st))
           = sent (snd (process_message cfg ev (md\<lparr>ob_has_media := Some False\<rparr>) st))
         \<and> files (snd (process_message cfg ev md st))
           = files (snd (process_message cfg ev (md\<lparr>ob_has_media := Some False\<rparr>) st))
         \<and> Error (''Failed to download media: HTTP '' @ str_nat code)
             \<in> set (log (snd (process_message cfg ev md st))))
   \<and> (declares_media md \<and>
       http_get ev (get_default (ob_media_url md) '''') = Fetch_Raises m \<longrightarrow>
         sent (snd (process_message cfg ev md st))
           = sent (snd (process_message cfg ev (md\<lparr>ob_has_media := Some False\<rparr>) st))
         \<and> files (snd (process_message cfg ev md st))
           = files (snd (process_message cfg ev (md\<lparr>ob_has_media := Some False\<rparr>) st))
         \<and> Error (''Error downloading and sending media: '' @ m)
             \<in> set (log (snd (process_message cfg ev md st))))
   \<and> (declares_media md \<and>
       http_get ev (get_default (ob_media_url md) '''') = Fetch_Status 200 \<and>
       write_file ev = Open_Raises m \<longrightarrow>
         sent (snd (process_message cfg ev md st))
           = sent (snd (process_message cfg ev (md\<lparr>ob_has_media := Some False\<rparr>) st))
         \<and> files (snd (process_message cfg ev md st))
           = files (snd (process_message cfg ev (md\<lparr>ob_has_media := Some False\<rparr>) st))
         \<and> Error (''Error downloading and sending media: '' @ m)
             \<in> set (log (snd (process_message cfg ev md st))))
   \<and> (declares_media md \<and>
       http_get ev (get_default (ob_media_url md) '''') = Fetch_Status 200 \<and>
       write_file ev = Write_Raises m \<longrightarrow>
         sent (snd (process_message cfg ev md st))
           = sent (snd (process_message cfg ev (md\<lparr>ob_has_media := Some False\<rparr>) st))
         \<and> Error (''Error downloading and sending media: '' @ m)
             \<in> set (log (snd (process_message cfg ev md st))))
   \<and> (declares_media md \<and>
       http_get ev (get_default (ob_media_url md) '''') = Fetch_Status 200 \<and>
       write_file ev = Written \<and> send_file_result ev = Raises m \<longrightarrow>
         sent (snd (process_message cfg ev md st))
           = sent (snd (process_message cfg ev (md\<lparr>ob_has_media := Some False\<rparr>) st))
         \<and> Error (''Error downloading and sending media: '' @ m)
             \<in> set (log (snd (process_message cfg ev md st))))
   \<and> (get_default (ob_text md) '''' \<noteq> '''' \<and> send_message_result ev = Returns \<longrightarrow>
         sent (snd (process_message cfg ev (md\<lparr>ob_has_media := Some False\<rparr>) st))
           = sent st @ [Sent_Message (telegram_chat_id cfg)
                          (format_message ev md
                             (fst (get_contact_info (get_default (ob_sender md) ''Unknown'') st)))])
   \<and> (declares_media md \<and>
       fst (download_body cfg ev (get_default (ob_media_url md) '''')
              (fst (get_contact_info (get_default (ob_sender md) ''Unknown'') st))
              (direction_label md) (get_default (ob_chat md) ''Unknown Chat'')
              (get_default (ob_timestamp md) (now_iso ev))
              (snd (get_contact_info (get_default (ob_sender md) ''Unknown'') st))) = Some e \<longrightarrow>
         Error (''Error downloading and sending media: '' @ exn_str e)
           \<in> set (log (snd (process_message cfg ev md st))))"
proof -
  let ?u = "get_default (ob_media_url md) ''''"
  let ?c = "fst (get_contact_info (get_default (ob_sender md) ''Unknown'') st)"
  let ?st1 = "snd (get_contact_info (get_default (ob_sender md) ''Unknown'') st)"
  let ?st2 = "media_part cfg ev md ?c ?st1"
  let ?body = "download_body cfg ev ?u ?c (direction_label md)
                 (get_default (ob_chat md) ''Unknown Chat'')
                 (get_default (ob_timestamp md) (now_iso ev)) ?st1"
  let ?tmp = "''temp_media_'' @ str_int (now_epoch ev) @ splitext_ext ?u"
  have p: "snd (process_message cfg ev md st) = text_part cfg ev md ?c ?st2"
    by (simp add: process_message_parts)
  have a: "fst (process_message cfg ev md st) = None"
    by (rule process_message_returns)
  have b: "contacts (text_part cfg ev md ?c ?st2) = contacts (text_part cfg ev md ?c ?st1)"
    "message_history (text_part cfg ev md ?c ?st2) = message_history (text_part cfg ev md ?c ?st1)"
    "active_chats (text_part cfg ev md ?c ?st2) = active_chats (text_part cfg ev md ?c ?st1)"
    by (simp_all add: text_part_fields media_part_frame)
  have b': "chat_groups (text_part cfg ev md ?c ?st2) = chat_groups (text_part cfg ev md ?c ?st1)"
    by (simp add: text_part_def Let_def record_message_def media_part_frame
          split: call_result.split)
  have c: "sent (text_part cfg ev md ?c ?st2) = sent (text_part cfg ev md ?c ?st1)
         \<and> files (text_part cfg ev md ?c ?st2) = files (text_part cfg ev md ?c ?st1)
         \<and> Error (''Failed to download media: HTTP '' @ str_nat code)
             \<in> set (log (text_part cfg ev md ?c ?st2))"
    if h: "declares_media md" "http_get ev ?u = Fetch_Status code" "code \<noteq> 200"
  proof -
    have m: "?st2 = log_error (''Failed to download media: HTTP '' @ str_nat code) ?st1"
      by (rule media_part_bad_status [OF h])
    show ?thesis
      using failed_media_sent_and_log [OF m] failed_media_files [OF m] by simp
  qed
  have r1: "sent (text_part cfg ev md ?c ?st2) = sent (text_part cfg ev md ?c ?st1)
         \<and> files (text_part cfg ev md ?c ?st2) = files (text_part cfg ev md ?c ?st1)
         \<and> Error (''Error downloading and sending media: '' @ m)
             \<in> set (log (text_part cfg ev md ?c ?st2))"
    if h: "declares_media md" "http_get ev ?u = Fetch_Raises m"
  proof -
    have r: "?body = (Some (External m), ?st1)"
      by (rule download_body_raises(1) [OF h(2)])
    have m: "?st2 = log_error (''Error downloading and sending media: '' @ m) ?st1"
      using media_part_raised [OF h(1) r] by (simp only: exn_str_External)
    show ?thesis
      using failed_media_sent_and_log [OF m] failed_media_files [OF m] by simp
  qed
  have r2: "sent (text_part cfg ev md ?c ?st2) = sent (text_part cfg ev md ?c ?st1)
         \<and> files (text_part cfg ev md ?c ?st2) = files (text_part cfg ev md ?c ?st1)
         \<and> Error (''Error downloading and sending media: '' @ m)
             \<in> set (log (text_part cfg ev md ?c ?st2))"
    if h: "declares_media md" "http_get ev ?u = Fetch_Status 200" "write_file ev = Open_Raises m"
  proof -
    have r: "?body = (Some (External m), ?st1)"
      by (rule download_body_raises(2) [OF h(2) h(3)])
    have m: "?st2 = log_error (''Error downloading and sending media: '' @ m) ?st1"
      using media_part_raised [OF h(1) r] by (simp only: exn_str_External)
    show ?thesis
      using failed_media_sent_and_log [OF m] failed_media_files [OF m] by simp
  qed
  have r3: "sent (text_part cfg ev md ?c ?st2) = sent (text_part cfg ev md ?c ?st1)
         \<and> Error (''Error downloading and sending media: '' @ m)
             \<in> set (log (text_part cfg ev md ?c ?st2))"
    if h: "declares_media md" "http_get ev ?u = Fetch_Status 200" "write_file ev = Write_Raises m"
  proof -
    have r: "?body = (Some (External m), create_file ?tmp ?st1)"
      by (rule download_body_raises(3) [OF h(2) h(3)])
    have m: "?st2 = log_error (''Error downloading and sending media: '' @ m)
                      (create_file ?tmp ?st1)"
      using media_part_raised [OF h(1) r] by (simp only: exn_str_External)
    show ?thesis
      using failed_media_sent_and_log [OF m] by (simp add: create_file_fields)
  qed
  have r4: "sent (text_part cfg ev md ?c ?st2) = sent (text_part cfg ev md ?c ?st1)
         \<and> Error (''Error downloading and sending media: '' @ m)
             \<in> set (log (text_part cfg ev md ?c ?st2))"
    if h: "declares_media md" "http_get ev ?u = Fetch_Status 200" "write_file ev = Written"
      "send_file_result ev = Raises m"
  proof -
    have r: "?body = (Some (External m), create_file ?tmp ?st1)"
      by (rule download_body_raises(4) [OF h(2) h(3) h(4)])
    have m: "?st2 = log_error (''Error downloading and sending media: '' @ m)
                      (create_file ?tmp ?st1)"
      using media_part_raised [OF h(1) r] by (simp only: exn_str_External)
    show ?thesis
      using failed_media_sent_and_log [OF m] by (simp add: create_file_fields)
  qed
  have t: "sent (text_part cfg ev md ?c ?st1)
             = sent st @ [Sent_Message (telegram_chat_id cfg) (format_message ev md ?c)]"
    if "get_default (ob_text md) '''' \<noteq> ''''" "send_message_result ev = Returns"
    using that by (simp add: text_part_fields get_contact_info_frame)
  have d: "Error (''Error downloading and sending media: '' @ exn_str e)
             \<in> set (log (text_part cfg ev md ?c ?st2))"
    if h: "declares_media md" "fst ?body = Some e"
  proof -
    obtain s where r: "?body = (Some e, s)"
      using h(2) by (metis prod.collapse)
    have m: "?st2 = log_error (''Error downloading and sending media: '' @ exn_str e) s"
      by (rule media_part_raised [OF h(1) r])
    obtain new where l: "log (text_part cfg ev md ?c ?st2) = log ?st2 @ new"
      using text_part_log by blast
    show ?thesis
      unfolding l unfolding m by simp
  qed
  show ?thesis
    unfolding p process_message_without_media
    using a b b' c r1 r2 r3 r4 t d by blast
qed

theorem media_failure_contained_witness:
  "Error ''Failed to download media: HTTP 404''
     \<in> set (log (snd (process_message example_config
                       (example_env\<lparr>http_get := (\<lambda>u. Fetch_Status 404)\<rparr>)
                       (media_observation ''m1'' ''Alice'' ''hi'' ''http://host/a.jpg'')
                       init_state)))
   \<and> files (snd (process_message example_config
                       (example_env\<lparr>http_get := (\<lambda>u. Fetch_Status 404)\<rparr>)
                       (media_observation ''m1'' ''Alice'' ''hi'' ''http://host/a.jpg'')
                       init_state))
     = files (snd (process_message example_config
                       (example_env\<lparr>http_get := (\<lambda>u. Fetch_Status 404)\<rparr>)
                       ((media_observation ''m1'' ''Alice'' ''hi'' ''http://host/a.jpg'')
                          \<lparr>ob_has_media := Some False\<rparr>)
                       init_state))
   \<and> Error ''Error downloading and sending media: connection reset''
     \<in> set (log (snd (process_message example_config
                       (example_env\<lparr>http_get := (\<lambda>u. Fetch_Raises ''connection reset'')\<rparr>)
                       (media_observation ''m1'' ''Alice'' ''hi'' ''http://host/a.jpg'')
                       init_state)))
   \<and> Error ''Error downloading and sending media: timed out''
     \<in> set (log (snd (process_message example_config
                       (example_env\<lparr>send_file_result := Raises ''timed out''\<rparr>)
                       (media_observation ''m1'' ''Alice'' ''hi'' ''http://host/a.jpg'')
                       init_state)))
   \<and> sent (snd (process_message example_config
                       (example_env\<lparr>send_file_result := Raises ''timed out''\<rparr>)
                       (media_observation ''m1'' ''Alice'' ''hi'' ''http://host/a.jpg'')
                       init_state))
     = [Sent_Message 42
          (format_message (example_env\<lparr>send_file_result := Raises ''timed out''\<rparr>)
             (media_observation ''m1'' ''Alice'' ''hi'' ''http://host/a.jpg'')
             (fst (get_contact_info ''Alice'' init_state)))]"
proof -
  let ?e1 = "example_env\<lparr>http_get := (\<lambda>u. Fetch_Status 404)\<rparr>"
  let ?e2 = "example_env\<lparr>http_get := (\<lambda>u. Fetch_Raises ''connection reset'')\<rparr>"
  let ?e3 = "example_env\<lparr>send_file_result := Raises ''timed out''\<rparr>"
  let ?md = "media_observation ''m1'' ''Alice'' ''hi'' ''http://host/a.jpg''"
  have dm: "declares_media ?md"
    by (simp add: declares_media_def get_default_def media_observation_def)
  have h1: "http_get ?e1 (get_default (ob_media_url ?md) '''') = Fetch_Status 404"
    "(404::nat) \<noteq> 200"
    by simp_all
  have h2: "http_get ?e2 (get_default (ob_media_url ?md) '''') = Fetch_Raises ''connection reset''"
    by simp
  have h3: "http_get ?e3 (get_default (ob_media_url ?md) '''') = Fetch_Status 200"
    "write_file ?e3 = Written" "send_file_result ?e3 = Raises ''timed out''"
    "send_message_result ?e3 = Returns"
    by (simp_all add: example_env_def)
  have f: "get_default (ob_text ?md) '''' \<noteq> ''''"
    "get_default (ob_sender ?md) ''Unknown'' = ''Alice''"
    by (simp_all add: get_default_def media_observation_def)
  have n: "str_nat 404 = ''404''"
    by (simp add: digit_char_def)
  have s0: "sent init_state = []" and c0: "telegram_chat_id example_config = 42"
    by (simp_all add: init_state_def example_config_def)
  from media_failure_contained [of example_config ?e1 ?md init_state 404] dm h1
  have w1: "Error (''Failed to download media: HTTP '' @ str_nat 404)
            \<in> set (log (snd (process_message example_config ?e1 ?md init_state)))
        \<and> files (snd (process_message example_config ?e1 ?md init_state))
          = files (snd (process_message example_config ?e1 (?md\<lparr>ob_has_media := Some False\<rparr>)
                          init_state))"
    by blast
  from media_failure_contained [of example_config ?e2 ?md init_state _ "''connection reset''"]
    dm h2
  have w2: "Error (''Error downloading and sending media: '' @ ''connection reset'')
            \<in> set (log (snd (process_message example_config ?e2 ?md init_state)))"
    by blast
  from media_failure_contained [of example_config ?e3 ?md init_state _ "''timed out''"]
    dm h3 f(1)
  have w3: "Error (''Error downloading and sending media: '' @ ''timed out'')
            \<in> set (log (snd (process_message example_config ?e3 ?md init_state)))
        \<and> sent (snd (process_message example_config ?e3 ?md init_state))
          = sent init_state @ [Sent_Message (telegram_chat_id example_config)
               (format_message ?e3 ?md
                  (fst (get_contact_info (get_default (ob_sender ?md) ''Unknown'') init_state)))]"
    by (metis (no_types, lifting))
  from w1 w2 w3 show ?thesis
    by (simp only: n append.simps f(2) s0 c0 simp_thms)
qed

section \<open>The transient media file\<close>

lemma media_part_send_raises:
  assumes "declares_media md"
    and "http_get ev (get_default (ob_media_url md) '''') = Fetch_Status 200"
    and "write_file ev = Written"
    and "send_file_result ev = Raises m"
  shows "files (media_part cfg ev md c st1) =
           files (create_file (''temp_media_'' @ str_int (now_epoch ev) @
                                 splitext_ext (get_default (ob_media_url md) '''')) st1)"
  using assms
  by (simp add: media_part_eq download_and_send_media_def download_body_def Let_def)

lemma media_part_send_returns:
  assumes "declares_media md"
    and "http_get ev (get_default (ob_media_url md) '''') = Fetch_Status 200"
    and "write_file ev = Written"
    and "send_file_result ev = Returns"
  shows "files (media_part cfg ev md c st1) =
           removeAll (''temp_media_'' @ str_int (now_epoch ev) @
                        splitext_ext (get_default (ob_media_url md) ''''))
             (files st1)"
  using assms
  by (simp add: media_part_eq download_and_send_media_def download_body_def Let_def
        create_file_def)

lemma example_temp_filename:
  "''temp_media_'' @ str_int 1700000000 @ splitext_ext ''http://host/a.jpg''
     = ''temp_media_1700000000.jpg''"
  by (simp add: str_int_def digit_char_def splitext_ext_def rfind_def)

text \<open>
  Claim C8 fails on the code. The transient file is removed only on the path on which
  \<open>send_file\<close> returns: when \<open>send_file\<close> raises, the exception leaves the \<open>try\<close>
  block before \<open>os.remove\<close> is reached, and the handler only logs. For a media
  observation whose fetch answers 200 and whose download is written, a failing
  \<open>send_file\<close> leaves the file \<open>temp_media_1700000000.jpg\<close> on disk after
  \<open>process_message\<close> has returned, while with a successful \<open>send_file\<close> no file
  remains.
\<close>

theorem transient_file_left_after_failed_send:
  "files (snd (process_message example_config
                 (example_env\<lparr>send_file_result := Raises ''timed out''\<rparr>)
                 (media_observation ''m1'' ''Alice'' '''' ''http://host/a.jpg'') init_state))
     = [''temp_media_1700000000.jpg'']
   \<and> files (snd (process_message example_config example_env
                 (media_observation ''m1'' ''Alice'' '''' ''http://host/a.jpg'') init_state))
     = []"
proof -
  let ?md = "media_observation ''m1'' ''Alice'' '''' ''http://host/a.jpg''"
  let ?ev = "example_env\<lparr>send_file_result := Raises ''timed out''\<rparr>"
  let ?c = "fst (get_contact_info (get_default (ob_sender ?md) ''Unknown'') init_state)"
  let ?st1 = "snd (get_contact_info (get_default (ob_sender ?md) ''Unknown'') init_state)"
  have u: "get_default (ob_media_url ?md) '''' = ''http://host/a.jpg''"
    by (simp add: media_observation_def get_default_def)
  have dm: "declares_media ?md"
    by (simp add: declares_media_def media_observation_def get_default_def)
  have e1: "http_get ?ev (get_default (ob_media_url ?md) '''') = Fetch_Status 200"
    "write_file ?ev = Written" "send_file_result ?ev = Raises ''timed out''"
    "now_epoch ?ev = 1700000000"
    by (simp_all add: example_env_def)
  have e2: "http_get example_env (get_default (ob_media_url ?md) '''') = Fetch_Status 200"
    "write_file example_env = Written" "send_file_result example_env = Returns"
    "now_epoch example_env = 1700000000"
    by (simp_all add: example_env_def)
  have f0: "files ?st1 = []"
    by (simp add: get_contact_info_frame init_state_def)
  have a: "files (media_part example_config ?ev ?md ?c ?st1) = [''temp_media_1700000000.jpg'']"
    unfolding media_part_send_raises [OF dm e1(1) e1(2) e1(3)] u e1(4) example_temp_filename
    by (simp add: create_file_def f0)
  have b: "files (media_part example_config example_env ?md ?c ?st1) = []"
    unfolding media_part_send_returns [OF dm e2(1) e2(2) e2(3)]
    by (simp add: f0)
  show ?thesis
    unfolding process_message_parts snd_conv text_part_fields
    using a b by simp
qed

section \<open>The chats command\<close>

text \<open>
  Claim C9 fails on the code. The active-chat list holds contact ids, the contacts
  dictionary is keyed by raw sender strings, and \<open>chats_handler\<close> looks the ids up in
  that dictionary. After one message from the new sender ``Alice'' the list is
  \<open>[unknown_1]\<close> and the only key is \<open>Alice\<close>: the lookup falls back to the default
  dictionary, which has no \<open>phone_number\<close>, so the handler raises \<open>KeyError\<close> and
  replies nothing. The state is left as it was.
\<close>

theorem chats_handler_raises_for_active_contact:
  "active_chats (snd (process_message example_config example_env
                        (text_observation ''m1'' ''Alice'' ''hi'') init_state)) = [''unknown_1'']
   \<and> map fst (contacts (snd (process_message example_config example_env
                        (text_observation ''m1'' ''Alice'' ''hi'') init_state))) = [''Alice'']
   \<and> chats_handler (snd (process_message example_config example_env
                        (text_observation ''m1'' ''Alice'' ''hi'') init_state))
     = (Some (KeyError ''phone_number''), [],
        snd (process_message example_config example_env
               (text_observation ''m1'' ''Alice'' ''hi'') init_state))"
proof -
  let ?md = "text_observation ''m1'' ''Alice'' ''hi''"
  let ?st = "snd (process_message example_config example_env ?md init_state)"
  have f: "get_default (ob_text ?md) '''' \<noteq> ''''"
    "get_default (ob_sender ?md) ''Unknown'' = ''Alice''"
    by (simp_all add: get_default_def text_observation_def)
  have c0: "contacts init_state = []" and a0: "active_chats init_state = []"
    by (simp_all add: init_state_def)
  have g: "get_contact_info ''Alice'' init_state =
      (\<lparr>display_name = ''Alice'', phone_number = ''unknown_1'', contact_id = ''unknown_1''\<rparr>,
       init_state\<lparr>contacts := [(''Alice'',
         \<lparr>display_name = ''Alice'', phone_number = ''unknown_1'', contact_id = ''unknown_1''\<rparr>)]\<rparr>)"
    by (simp add: get_contact_info_def c0 phone_pattern_def Let_def digit_char_def)
  have a: "active_chats ?st = [''unknown_1'']"
    using process_message_active [of example_config example_env ?md init_state]
    by (simp add: f g a0)
  have c: "contacts ?st = [(''Alice'',
         \<lparr>display_name = ''Alice'', phone_number = ''unknown_1'', contact_id = ''unknown_1''\<rparr>)]"
    by (simp add: process_message_contacts f g)
  have h: "chats_handler ?st = (Some (KeyError ''phone_number''), [], ?st)"
    unfolding chats_handler_def a c
    by (simp add: last10_def)
  show ?thesis
    using a c h by simp
qed

section \<open>Chunking of the history text\<close>

lemma py_slice_nat: "py_slice t (int a) (int b) = drop a (take b t)"
proof -
  have a: "nat (max 0 (min (int (length t)) (int a))) = min (length t) a"
    by (simp only: of_nat_min [symmetric] max_def of_nat_0_le_iff if_True nat_int)
  have b: "nat (max 0 (min (int (length t)) (int b))) = min (length t) b"
    by (simp only: of_nat_min [symmetric] max_def of_nat_0_le_iff if_True nat_int)
  have n: "(int a < 0) = False" "(int b < 0) = False"
    by (simp_all only: of_nat_less_0_iff)
  have c: "drop (min (length t) a) (take (min (length t) b) t) = drop a (take b t)"
    by (simp add: min_def)
  show ?thesis
    unfolding py_slice_def Let_def n if_False a b c ..
qed

lemma slice_chunk:
  assumes "0 < m"
  shows "py_slice t (int k * m) (int k * m + m) = take (nat m) (drop (k * nat m) t)"
proof -
  define M where "M = nat m"
  have M: "m = int M"
    using assms by (simp add: M_def)
  have "py_slice t (int (k * M)) (int (k * M + M)) = take M (drop (k * M) t)"
    unfolding py_slice_nat by (simp add: drop_take)
  then show ?thesis
    unfolding M by simp
qed

lemma concat_chunks: "concat (map (\<lambda>k. take M (drop (k * M) t)) [0..<c]) = take (c * M) t"
proof (induction c)
  case 0
  then show ?case by simp
next
  case (Suc c)
  have "take (c * M) t @ take M (drop (c * M) t) = take (c * M + M) t"
    by (simp add: take_add)
  with Suc show ?case by (simp add: add.commute)
qed

lemma chunk_count_covers:
  fixes n M :: nat
  assumes "0 < M"
  shows "n \<le> ((n + M - 1) div M) * M"
proof -
  have "(n + M - 1) mod M < M"
    using assms by simp
  moreover have "(n + M - 1) div M * M + (n + M - 1) mod M = n + M - 1"
    by simp
  ultimately show ?thesis
    using assms by linarith
qed

lemma range_count:
  assumes "0 < M"
  shows "nat ((int n + int M - 1) div int M) = (n + M - 1) div M"
proof -
  have "int n + int M - 1 = int (n + M - 1)"
    using assms by (simp add: of_nat_diff)
  then show ?thesis
    by (simp only: zdiv_int [symmetric] nat_int)
qed

lemma respond_history_chunks:
  assumes "0 < maxlen" and "int (length t) > maxlen"
  shows "respond_history maxlen t =
           Inr (map (\<lambda>k. take (nat maxlen) (drop (k * nat maxlen) t))
                  [0..<(length t + nat maxlen - 1) div nat maxlen])"
proof -
  define M where "M = nat maxlen"
  have M: "maxlen = int M" and M0: "0 < M"
    using assms(1) by (simp_all add: M_def)
  have nz: "(int M = 0) = False" "(int M > 0) = True"
    using M0 by simp_all
  have r: "py_range0 (int (length t)) (int M) =
      Inr (map (\<lambda>k. int k * int M) [0..<(length t + M - 1) div M])"
    unfolding py_range0_def nz if_False if_True range_count [OF M0] ..
  have s: "map (\<lambda>i. py_slice t i (i + int M)) (map (\<lambda>k. int k * int M) xs)
             = map (\<lambda>k. take M (drop (k * M) t)) xs" for xs
    using slice_chunk [of "int M" t] M0 by (simp add: o_def)
  have g: "(int M < int (length t)) = True"
    using assms(2) unfolding M by simp
  show ?thesis
    unfolding M_def [symmetric]
    unfolding M respond_history_def g if_True r sum.case s nat_int ..
qed

lemma respond_history_positive:
  assumes "0 < maxlen"
  shows "\<exists>segs. respond_history maxlen t = Inr segs \<and> concat segs = t
           \<and> (\<forall>s \<in> set segs. int (length s) \<le> maxlen)
           \<and> (\<forall>k < length segs. segs ! k = take (nat maxlen) (drop (k * nat maxlen) t))"
proof (cases "int (length t) > maxlen")
  case False
  then have "respond_history maxlen t = Inr [t]"
    by (simp add: respond_history_def)
  moreover have "take (nat maxlen) t = t"
    using False by simp
  ultimately show ?thesis
    using False by simp
next
  case True
  let ?M = "nat maxlen"
  let ?c = "(length t + ?M - 1) div ?M"
  let ?segs = "map (\<lambda>k. take ?M (drop (k * ?M) t)) [0..<?c]"
  have M: "0 < ?M" using assms by simp
  have 1: "respond_history maxlen t = Inr ?segs"
    by (rule respond_history_chunks [OF assms True])
  have 2: "concat ?segs = t"
    using chunk_count_covers [OF M, of "length t"] by (simp add: concat_chunks)
  have 3: "\<forall>s \<in> set ?segs. int (length s) \<le> maxlen"
    using assms by auto
  have 4: "\<forall>k < length ?segs. ?segs ! k = take ?M (drop (k * ?M) t)"
    by simp
  show ?thesis
    using 1 2 3 4 by blast
qed

lemma respond_history_zero:
  "t \<noteq> [] \<Longrightarrow> respond_history 0 t = Inl (ValueError ''range() arg 3 must not be zero'')"
  unfolding respond_history_def py_range0_def by simp

lemma respond_history_negative:
  assumes "maxlen < 0"
  shows "respond_history maxlen t = Inr []"
proof -
  have "(- int (length t) - maxlen - 1) div (- maxlen) \<le> (- maxlen - 1) div (- maxlen)"
    using assms by (intro zdiv_mono1) simp_all
  moreover have "(- maxlen - 1) div (- maxlen) = 0"
    using assms by (intro div_pos_pos_trivial) simp_all
  ultimately have "(- int (length t) - maxlen - 1) div (- maxlen) \<le> 0"
    by simp
  then show ?thesis
    using assms unfolding respond_history_def py_range0_def by simp
qed

lemma process_message_history_entry:
  assumes "get_default (ob_text md) '''' \<noteq> ''''"
  shows "map_of (message_history (snd (process_message cfg ev md st)))
           (contact_id (fst (get_contact_info (get_default (ob_sender md) ''Unknown'') st)))
         = Some (history_of
                   (contact_id (fst (get_contact_info (get_default (ob_sender md) ''Unknown'') st)))
                   st @ [make_record ev md])"
  unfolding history_of_def
  using assms
  by (simp add: process_message_parts text_part_fields media_part_frame
        get_contact_info_frame map_of_dict_append)

lemma history_handler_text:
  "history_text_for st name = Some (Inr t) \<Longrightarrow>
     history_handler cfg name st =
       (case respond_history (max_message_length cfg) t of
          Inl e \<Rightarrow> (Some e, [], st)
        | Inr segments \<Rightarrow> (None, segments, st))"
  by (simp add: history_handler_def)

lemma placeholder_named_sender:
  "get_contact_info ''unknown_1'' init_state =
     (\<lparr>display_name = ''unknown_1'', phone_number = ''unknown_1'', contact_id = ''unknown_1''\<rparr>,
      init_state\<lparr>contacts := [(''unknown_1'',
         \<lparr>display_name = ''unknown_1'', phone_number = ''unknown_1'',
          contact_id = ''unknown_1''\<rparr>)]\<rparr>)"
  by (simp add: get_contact_info_def init_state_def phone_pattern_def is_digit_def is_sep_def
        is_space_def Let_def digit_char_def)

lemma example_history_text:
  "history_text_for
     (snd (process_message example_config example_env
             (text_observation ''m1'' ''unknown_1'' ''hi'') init_state)) ''unknown_1''
   = Some (Inr (''Last 10 messages with unknown_1:'' @ nl @ nl @
                glyph_received @ '' hi (2023-11-14T22:13:20)'' @ nl @ nl))"
proof -
  let ?md = "text_observation ''m1'' ''unknown_1'' ''hi''"
  let ?st = "snd (process_message example_config example_env ?md init_state)"
  have f: "get_default (ob_text ?md) '''' \<noteq> ''''"
    "get_default (ob_sender ?md) ''Unknown'' = ''unknown_1''"
    by (simp_all add: get_default_def text_observation_def)
  have c: "contacts ?st = [(''unknown_1'',
         \<lparr>display_name = ''unknown_1'', phone_number = ''unknown_1'',
          contact_id = ''unknown_1''\<rparr>)]"
    unfolding process_message_contacts f placeholder_named_sender by simp
  have h0: "history_of ''unknown_1'' init_state = []"
    by (simp add: history_of_def init_state_def)
  have h: "map_of (message_history ?st) ''unknown_1'' = Some [make_record example_env ?md]"
    using process_message_history_entry [OF f(1), of example_config example_env init_state]
    unfolding f(2) placeholder_named_sender by (simp add: h0)
  have l: "history_line (make_record example_env ?md)
             = glyph_received @ '' hi (2023-11-14T22:13:20)'' @ nl @ nl"
    by (simp add: history_line_def make_record_def get_default_def text_observation_def)
  have fc: "find_contact (contacts ?st) ''unknown_1'' = Some ''unknown_1''"
    unfolding c by (simp add: find_contact_def startswith_def)
  show ?thesis
    unfolding history_text_for_def fc
    by (simp add: c h last10_def l)
qed

text \<open>
  Claim C6, as stated, fails on the code: the maximum message length is whatever integer
  the environment variable holds, and for a maximum of zero the chunking raises
  \<open>ValueError\<close> (the step of \<open>range\<close> is zero) and nothing is sent, while for a negative
  maximum the range is empty and nothing is sent either, so the segments do not
  reconstruct the history text. The state is the one reached from the initial state by
  one message \<open>hi\<close> from the sender ``unknown\_1'', and the command is
  \<open>/history unknown_1\<close>.
\<close>

theorem history_not_chunked_for_nonpositive_maximum:
  "history_text_for
     (snd (process_message example_config example_env
             (text_observation ''m1'' ''unknown_1'' ''hi'') init_state)) ''unknown_1''
   = Some (Inr (''Last 10 messages with unknown_1:'' @ nl @ nl @
                glyph_received @ '' hi (2023-11-14T22:13:20)'' @ nl @ nl))
   \<and> history_handler (example_config\<lparr>max_message_length := 0\<rparr>) ''unknown_1''
       (snd (process_message example_config example_env
               (text_observation ''m1'' ''unknown_1'' ''hi'') init_state))
     = (Some (ValueError ''range() arg 3 must not be zero''), [],
        snd (process_message example_config example_env
               (text_observation ''m1'' ''unknown_1'' ''hi'') init_state))
   \<and> history_handler (example_config\<lparr>max_message_length := - 1\<rparr>) ''unknown_1''
       (snd (process_message example_config example_env
               (text_observation ''m1'' ''unknown_1'' ''hi'') init_state))
     = (None, [],
        snd (process_message example_config example_env
               (text_observation ''m1'' ''unknown_1'' ''hi'') init_state))"
proof -
  let ?st = "snd (process_message example_config example_env
                    (text_observation ''m1'' ''unknown_1'' ''hi'') init_state)"
  let ?t = "''Last 10 messages with unknown_1:'' @ nl @ nl @
              glyph_received @ '' hi (2023-11-14T22:13:20)'' @ nl @ nl"
  have ne: "?t \<noteq> []" by simp
  have z: "respond_history (max_message_length (example_config\<lparr>max_message_length := 0\<rparr>)) ?t
             = Inl (ValueError ''range() arg 3 must not be zero'')"
    using respond_history_zero [OF ne] by simp
  have n: "respond_history (max_message_length (example_config\<lparr>max_message_length := - 1\<rparr>)) ?t
             = Inr []"
    using respond_history_negative [of "- 1" ?t] by simp
  show ?thesis
    unfolding history_handler_text [OF example_history_text] z n
    using example_history_text by simp
qed

text \<open>
  Claim C6, amended to a positive maximum message length. When the \<open>/history\<close> command
  finds a history and builds the text \<open>t\<close> for it, and the configured maximum \<open>M\<close> is
  positive, the handler raises nothing, leaves the state as it is and replies with
  segments such that: their concatenation, in order, is \<open>t\<close>; none is longer than \<open>M\<close>;
  segment \<open>k\<close> is exactly the characters of \<open>t\<close> from position \<open>k * M\<close> up to
  \<open>k * M + M\<close>, wherever words begin or end; and their number is one when \<open>t\<close> is not
  longer than \<open>M\<close> and the length of \<open>t\<close> divided by \<open>M\<close>, rounded up, otherwise.
\<close>

theorem history_segments:
  assumes "0 < max_message_length cfg"
    and "history_text_for st name = Some (Inr t)"
  shows "\<exists>segs. history_handler cfg name st = (None, segs, st)
           \<and> concat segs = t
           \<and> (\<forall>s \<in> set segs. int (length s) \<le> max_message_length cfg)
           \<and> (\<forall>k < length segs.
                 segs ! k = take (nat (max_message_length cfg))
                              (drop (k * nat (max_message_length cfg)) t))
           \<and> length segs =
               (if int (length t) \<le> max_message_length cfg then 1
                else (length t + nat (max_message_length cfg) - 1)
                       div nat (max_message_length cfg))"
proof -
  obtain segs where s: "respond_history (max_message_length cfg) t = Inr segs"
      "concat segs = t" "\<forall>s \<in> set segs. int (length s) \<le> max_message_length cfg"
      "\<forall>k < length segs. segs ! k = take (nat (max_message_length cfg))
                              (drop (k * nat (max_message_length cfg)) t)"
    using respond_history_positive [OF assms(1), of t] by blast
  have l: "length segs =
               (if int (length t) \<le> max_message_length cfg then 1
                else (length t + nat (max_message_length cfg) - 1)
                       div nat (max_message_length cfg))"
  proof (cases "int (length t) \<le> max_message_length cfg")
    case True
    then have "respond_history (max_message_length cfg) t = Inr [t]"
      by (simp add: respond_history_def)
    with s(1) have "segs = [t]" by simp
    with True show ?thesis by simp
  next
    case False
    then have "max_message_length cfg < int (length t)" by simp
    from respond_history_chunks [OF assms(1) this] s(1) False show ?thesis by auto
  qed
  have "history_handler cfg name st = (None, segs, st)"
    unfolding history_handler_text [OF assms(2)] s(1) by simp
  with s(2,3,4) l show ?thesis by blast
qed

theorem history_segments_witness:
  "0 < max_message_length (example_config\<lparr>max_message_length := 20\<rparr>)
   \<and> history_text_for
       (snd (process_message example_config example_env
               (text_observation ''m1'' ''unknown_1'' ''hi'') init_state)) ''unknown_1''
     = Some (Inr (''Last 10 messages with unknown_1:'' @ nl @ nl @
                  glyph_received @ '' hi (2023-11-14T22:13:20)'' @ nl @ nl))
   \<and> (\<exists>segs. history_handler (example_config\<lparr>max_message_length := 20\<rparr>) ''unknown_1''
                (snd (process_message example_config example_env
                        (text_observation ''m1'' ''unknown_1'' ''hi'') init_state))
              = (None, segs,
                 snd (process_message example_config example_env
                        (text_observation ''m1'' ''unknown_1'' ''hi'') init_state))
            \<and> concat segs = ''Last 10 messages with unknown_1:'' @ nl @ nl @
                  glyph_received @ '' hi (2023-11-14T22:13:20)'' @ nl @ nl
            \<and> length segs = 4
            \<and> segs ! 0 = ''Last 10 messages wit''
            \<and> segs ! 3 = nl @ nl)"
proof -
  let ?cfg = "example_config\<lparr>max_message_length := 20\<rparr>"
  let ?st = "snd (process_message example_config example_env
                    (text_observation ''m1'' ''unknown_1'' ''hi'') init_state)"
  let ?t = "''Last 10 messages with unknown_1:'' @ nl @ nl @
              glyph_received @ '' hi (2023-11-14T22:13:20)'' @ nl @ nl"
  have m: "max_message_length ?cfg = 20" by simp
  have h1: "0 < max_message_length ?cfg" by simp
  have len: "length ?t = 62" by (simp add: nl_def glyph_received_def)
  obtain segs where s: "history_handler ?cfg ''unknown_1'' ?st = (None, segs, ?st)"
      "concat segs = ?t"
      "\<forall>k < length segs. segs ! k = take (nat (max_message_length ?cfg))
                                       (drop (k * nat (max_message_length ?cfg)) ?t)"
      "length segs = (if int (length ?t) \<le> max_message_length ?cfg then 1
                else (length ?t + nat (max_message_length ?cfg) - 1)
                       div nat (max_message_length ?cfg))"
    using history_segments [OF h1 example_history_text] by blast
  have l4: "length segs = 4"
    using s(4) unfolding m len by simp
  have s0: "segs ! 0 = ''Last 10 messages wit''"
    using s(3) l4 unfolding m by (simp add: nl_def glyph_received_def)
  have s3: "segs ! 3 = nl @ nl"
    using s(3) l4 unfolding m by (simp add: nl_def glyph_received_def)
  show ?thesis
    using h1 example_history_text s(1,2) l4 s0 s3 by blast
qed

end
